theory Spec2Isabelle
  imports Main "HOL-Library.Sublist"
begin

section \<open>JavaScript values\<close>

text \<open>
  The server (\<^verbatim>\<open>server/index.js\<close>) works on values produced by \<^verbatim>\<open>JSON.parse\<close>:
  the request body, the search provider's reply and the model provider's reply.
  A value is \<^verbatim>\<open>null\<close>, a boolean, a number, a string, an array or an object; the
  JavaScript value \<^verbatim>\<open>undefined\<close> (a missing property) is \<open>None\<close> of \<open>json option\<close>.

  Strings are lists of \<^typ>\<open>char\<close>: the model covers the code units 0 to 255 of a
  JavaScript string. Numbers are decimal fractions \<open>m / 10 ^ d\<close>, kept exactly and in
  lowest terms of ten (\<open>d = 0\<close> or \<open>m\<close> not a multiple of ten); the two places where
  the IEEE double behind a JavaScript number is visible through the code, a literal so
  small that it reads as zero and one so large that it reads as \<^verbatim>\<open>Infinity\<close>, are
  written out. An object is its list of own properties in property order.
\<close>

datatype jsnum = Dec int nat

datatype json =
    JNull
  | JBool bool
  | JNum jsnum
  | JStr string
  | JArr "json list"
  | JObj "(string \<times> json) list"

text \<open>An \<^verbatim>\<open>Error\<close> object: its name and its message.\<close>

datatype js_error = JsError string string

text \<open>\<^verbatim>\<open>String(err)\<close> and \<^verbatim>\<open>err.message\<close>.\<close>

fun error_to_string :: "js_error \<Rightarrow> string" where
  "error_to_string (JsError name msg) =
     (if name = [] then msg else if msg = [] then name else name @ '': '' @ msg)"

fun message :: "js_error \<Rightarrow> string" where
  "message (JsError name msg) = msg"

definition Error :: "string \<Rightarrow> js_error" where
  "Error msg = JsError ''Error'' msg"

definition TypeError :: "string \<Rightarrow> js_error" where
  "TypeError msg = JsError ''TypeError'' msg"

text \<open>
  A positive literal reads as the double zero when it is at most \<open>2 ^ -1075\<close> (half of
  the least subnormal, the tie going to the even zero), and as infinity when it is at
  least \<open>2 ^ 1024 - 2 ^ 970\<close>.
\<close>

fun rounds_to_zero :: "jsnum \<Rightarrow> bool" where
  "rounds_to_zero (Dec m d) = (\<bar>m\<bar> * 2 ^ 1075 \<le> 10 ^ d)"

fun rounds_to_infinity :: "jsnum \<Rightarrow> bool" where
  "rounds_to_infinity (Dec m d) = ((2 ^ 1024 - 2 ^ 970) * 10 ^ d \<le> \<bar>m\<bar>)"

text \<open>
  \<^verbatim>\<open>a <= b\<close> on numbers, on the exact values: two literals that differ beyond the
  precision of a double compare here as they are written.
\<close>

fun num_le :: "jsnum \<Rightarrow> jsnum \<Rightarrow> bool" where
  "num_le (Dec m d) (Dec n e) = (m * 10 ^ e \<le> n * 10 ^ d)"

text \<open>Truthiness, as tested by \<^verbatim>\<open>if (x)\<close>, \<^verbatim>\<open>!x\<close>, \<^verbatim>\<open>x && y\<close> and \<^verbatim>\<open>x || y\<close>.\<close>

fun truthy :: "json \<Rightarrow> bool" where
  "truthy JNull = False"
| "truthy (JBool b) = b"
| "truthy (JNum n) = (\<not> rounds_to_zero n)"
| "truthy (JStr s) = (s \<noteq> [])"
| "truthy (JArr xs) = True"
| "truthy (JObj kvs) = True"

fun truthy_opt :: "json option \<Rightarrow> bool" where
  "truthy_opt None = False"
| "truthy_opt (Some v) = truthy v"

text \<open>
  \<^verbatim>\<open>x.k\<close> for a value \<open>x\<close> that is not \<^verbatim>\<open>null\<close>: an own property of an object, and
  \<^verbatim>\<open>undefined\<close> on a number, a boolean, a string or an array for every key the server
  reads with one exception: \<^verbatim>\<open>"abc".link\<close> is a function of the string prototype. It
  is read in one place only, \<^verbatim>\<open>item.link || item.source\<close>, whose result is stored in a
  property and serialised; a function there is left out by the serialiser exactly as
  \<^verbatim>\<open>undefined\<close> is, and \<^verbatim>\<open>"abc".source\<close> is \<^verbatim>\<open>undefined\<close>.
\<close>

fun get_prop :: "json \<Rightarrow> string \<Rightarrow> json option" where
  "get_prop (JObj kvs) k = map_of kvs k"
| "get_prop v k = None"

text \<open>\<^verbatim>\<open>x.k\<close> where \<open>x\<close> may be \<^verbatim>\<open>null\<close>: reading a property of \<^verbatim>\<open>null\<close> throws.\<close>

fun read_prop :: "json \<Rightarrow> string \<Rightarrow> js_error + json option" where
  "read_prop JNull k =
     Inl (TypeError (''Cannot read properties of null (reading '' @ [CHR 0x27] @ k @ [CHR 0x27] @ '')''))"
| "read_prop v k = Inr (get_prop v k)"

fun isArray :: "json option \<Rightarrow> bool" where
  "isArray (Some (JArr xs)) = True"
| "isArray v = False"

fun is_string :: "json option \<Rightarrow> bool" where
  "is_string (Some (JStr s)) = True"
| "is_string v = False"

text \<open>\<^verbatim>\<open>a || b\<close> on possibly undefined values.\<close>

fun js_or :: "json option \<Rightarrow> json option \<Rightarrow> json option" where
  "js_or a b = (if truthy_opt a then a else b)"

text \<open>
  An object literal \<^verbatim>\<open>{k1: v1, ...}\<close> as it is serialised: a property whose value is
  \<^verbatim>\<open>undefined\<close> is left out.
\<close>

fun object_of :: "(string \<times> json option) list \<Rightarrow> json" where
  "object_of props = JObj (concat (map (\<lambda>(k, v). case v of None \<Rightarrow> [] | Some x \<Rightarrow> [(k, x)]) props))"

section \<open>String operations\<close>

text \<open>
  White space as \<^verbatim>\<open>\s\<close> and \<^verbatim>\<open>trim\<close> know it (tab, line feed, vertical tab, form feed,
  carriage return, space, no-break space), and decimal digits as \<^verbatim>\<open>\d\<close>.
\<close>

definition is_space :: "char \<Rightarrow> bool" where
  "is_space c = (c \<in> {CHR 0x09, CHR 0x0A, CHR 0x0B, CHR 0x0C, CHR 0x0D, CHR 0x20, CHR 0xA0})"

definition is_digit :: "char \<Rightarrow> bool" where
  "is_digit c = (c \<in> set ''0123456789'')"

definition trim :: "string \<Rightarrow> string" where
  "trim s = rev (dropWhile is_space (rev (dropWhile is_space s)))"

definition lower_char :: "char \<Rightarrow> char" where
  "lower_char c = (let n = of_char c :: nat in
     if (65 \<le> n \<and> n \<le> 90) \<or> (192 \<le> n \<and> n \<le> 222 \<and> n \<noteq> 215)
     then char_of (n + 32) else c)"

definition toLowerCase :: "string \<Rightarrow> string" where
  "toLowerCase s = map lower_char s"

text \<open>\<^verbatim>\<open>s.indexOf(c)\<close> and \<^verbatim>\<open>s.lastIndexOf(c)\<close> for one character; \<open>None\<close> is \<open>-1\<close>.\<close>

fun indexOf :: "string \<Rightarrow> char \<Rightarrow> nat option" where
  "indexOf [] c = None"
| "indexOf (x # xs) c = (if x = c then Some 0 else map_option Suc (indexOf xs c))"

fun lastIndexOf :: "string \<Rightarrow> char \<Rightarrow> nat option" where
  "lastIndexOf [] c = None"
| "lastIndexOf (x # xs) c =
     (case lastIndexOf xs c of
        Some i \<Rightarrow> Some (Suc i)
      | None \<Rightarrow> if x = c then Some 0 else None)"

text \<open>The index of the first occurrence of a non-empty pattern.\<close>

fun find_sub :: "string \<Rightarrow> string \<Rightarrow> nat option" where
  "find_sub pat [] = None"
| "find_sub pat (x # xs) =
     (if prefix pat (x # xs) then Some 0 else map_option Suc (find_sub pat xs))"

text \<open>\<^verbatim>\<open>s.includes(t)\<close>.\<close>

fun str_includes :: "string \<Rightarrow> string \<Rightarrow> bool" where
  "str_includes [] t = (t = [])"
| "str_includes (x # xs) t = (prefix t (x # xs) \<or> str_includes xs t)"

text \<open>\<^verbatim>\<open>s.slice(i, j)\<close> for \<open>0 \<le> i\<close> and \<open>0 \<le> j\<close>.\<close>

definition slice :: "string \<Rightarrow> nat \<Rightarrow> nat \<Rightarrow> string" where
  "slice s i j = take (j - i) (drop i s)"

text \<open>\<^verbatim>\<open>xs.join(sep)\<close> on an array of strings.\<close>

fun join :: "string \<Rightarrow> string list \<Rightarrow> string" where
  "join sep [] = []"
| "join sep [x] = x"
| "join sep (x # y # ys) = x @ sep @ join sep (y # ys)"

text \<open>
  \<^verbatim>\<open>s.split(/\s+/).filter(Boolean)\<close>: the maximal runs of characters that are not white
  space. The accumulator holds the run being read.
\<close>

fun split_ws :: "string \<Rightarrow> string \<Rightarrow> string list" where
  "split_ws acc [] = (if acc = [] then [] else [acc])"
| "split_ws acc (c # cs) =
     (if is_space c then (if acc = [] then split_ws [] cs else acc # split_ws [] cs)
      else split_ws (acc @ [c]) cs)"

definition tokens_of :: "string \<Rightarrow> string list" where
  "tokens_of s = split_ws [] s"

text \<open>The decimal numeral of a number that is not negative, and the value of a digit string.\<close>

definition digit_char :: "int \<Rightarrow> char" where
  "digit_char n = char_of (48 + n)"

function digits :: "int \<Rightarrow> string" where
  "digits n = (if n < 10 then [digit_char n] else digits (n div 10) @ [digit_char (n mod 10)])"
  by pat_completeness auto
termination
  by (relation "measure nat") auto

declare digits.simps [simp del]

definition digit_val :: "char \<Rightarrow> int" where
  "digit_val c = of_char c - 48"

definition int_of_digits :: "string \<Rightarrow> int" where
  "int_of_digits s = foldl (\<lambda>n c. 10 * n + digit_val c) 0 s"

section \<open>\<^verbatim>\<open>JSON.parse\<close>\<close>

text \<open>
  \<^verbatim>\<open>JSON.parse\<close> is a function of the language, not of the repository; it is modelled
  after the JSON grammar of ECMA-262: a lexer for the six structural characters,
  strings, numbers and the three literal names, and a stack automaton over the tokens.
  A \<^verbatim>\<open>SyntaxError\<close> is \<open>None\<close>. An escape \<^verbatim>\<open>\uXXXX\<close> above \<^verbatim>\<open>\u00ff\<close> denotes a
  code unit outside \<^typ>\<open>char\<close> and is not covered: the model gives \<open>None\<close> there.
\<close>

datatype token =
    TLBrace | TRBrace | TLBrack | TRBrack | TColon | TComma
  | TStr string
  | TNum jsnum
  | TLit json

definition json_ws :: "char \<Rightarrow> bool" where
  "json_ws c = (c \<in> {CHR 0x20, CHR 0x09, CHR 0x0A, CHR 0x0D})"

definition hex_val :: "char \<Rightarrow> nat option" where
  "hex_val c = (let n = of_char c :: nat in
     if 48 \<le> n \<and> n \<le> 57 then Some (n - 48)
     else if 97 \<le> n \<and> n \<le> 102 then Some (n - 87)
     else if 65 \<le> n \<and> n \<le> 70 then Some (n - 55)
     else None)"

definition unescape :: "char \<Rightarrow> char option" where
  "unescape e = map_of
     [(CHR 0x22, CHR 0x22), (CHR 0x5C, CHR 0x5C), (CHR ''/'', CHR ''/''),
      (CHR ''b'', CHR 0x08), (CHR ''f'', CHR 0x0C), (CHR ''n'', CHR 0x0A),
      (CHR ''r'', CHR 0x0D), (CHR ''t'', CHR 0x09)] e"

fun cons_char :: "char \<Rightarrow> (string \<times> string) option \<Rightarrow> (string \<times> string) option" where
  "cons_char c None = None"
| "cons_char c (Some (s, rest)) = Some (c # s, rest)"

text \<open>The characters of a string literal after its opening quote, and what follows it.\<close>

fun lex_string :: "string \<Rightarrow> (string \<times> string) option" where
  "lex_string [] = None"
| "lex_string (c # cs) =
     (if c = CHR 0x22 then Some ([], cs)
      else if c = CHR 0x5C then
        (case cs of
           [] \<Rightarrow> None
         | e # es \<Rightarrow>
             if e = CHR ''u'' then
               (case es of
                  h1 # h2 # h3 # h4 # r \<Rightarrow>
                    (case (hex_val h1, hex_val h2, hex_val h3, hex_val h4) of
                       (Some a, Some b, Some x, Some y) \<Rightarrow>
                         (let n = ((a * 16 + b) * 16 + x) * 16 + y
                          in if n < 256 then cons_char (char_of n) (lex_string r) else None)
                     | _ \<Rightarrow> None)
                | _ \<Rightarrow> None)
             else (case unescape e of
                     None \<Rightarrow> None
                   | Some ch \<Rightarrow> cons_char ch (lex_string es)))
      else if (of_char c :: nat) < 32 then None
      else cons_char c (lex_string cs))"

text \<open>
  A number with significand \<open>m\<close> and decimal scale \<open>sc\<close> (the value is \<open>m / 10 ^ sc\<close>,
  \<open>sc\<close> possibly negative), in lowest terms of ten.
\<close>

fun norm_dec :: "int \<Rightarrow> nat \<Rightarrow> jsnum" where
  "norm_dec m 0 = Dec m 0"
| "norm_dec m (Suc d) = (if m mod 10 = 0 then norm_dec (m div 10) d else Dec m (Suc d))"

definition mk_num :: "int \<Rightarrow> int \<Rightarrow> jsnum" where
  "mk_num m sc = (if sc \<le> 0 then Dec (m * 10 ^ nat (- sc)) 0 else norm_dec m (nat sc))"

text \<open>
  A number literal at the head of the text: an optional minus sign, the integer part
  (\<^verbatim>\<open>0\<close> or a digit string with no leading zero), an optional fraction, an optional
  exponent. Each part gives what it read and the text after it.
\<close>

definition lex_sign :: "string \<Rightarrow> bool \<times> string" where
  "lex_sign s =
     (case s of
        [] \<Rightarrow> (False, s)
      | c # cs \<Rightarrow> if c = CHR ''-'' then (True, cs) else (False, s))"

definition lex_frac :: "string \<Rightarrow> (string \<times> string) option" where
  "lex_frac s =
     (case s of
        [] \<Rightarrow> Some ([], s)
      | c # cs \<Rightarrow>
          if c = CHR ''.'' then
            (if takeWhile is_digit cs = [] then None
             else Some (takeWhile is_digit cs, dropWhile is_digit cs))
          else Some ([], s))"

definition lex_exp_sign :: "string \<Rightarrow> bool \<times> string" where
  "lex_exp_sign s =
     (case s of
        [] \<Rightarrow> (False, s)
      | c # cs \<Rightarrow>
          if c = CHR ''-'' then (True, cs)
          else if c = CHR ''+'' then (False, cs)
          else (False, s))"

definition lex_exp :: "string \<Rightarrow> (int \<times> string) option" where
  "lex_exp s =
     (case s of
        [] \<Rightarrow> Some (0, s)
      | c # cs \<Rightarrow>
          if c = CHR ''e'' \<or> c = CHR ''E'' then
            (case lex_exp_sign cs of
               (neg, t) \<Rightarrow>
                 if takeWhile is_digit t = [] then None
                 else Some (if neg then - int_of_digits (takeWhile is_digit t)
                            else int_of_digits (takeWhile is_digit t),
                            dropWhile is_digit t))
          else Some (0, s))"

definition lex_number :: "string \<Rightarrow> (jsnum \<times> string) option" where
  "lex_number s =
     (case lex_sign s of
        (neg, s1) \<Rightarrow>
          (let ip = takeWhile is_digit s1 in
           if ip = [] \<or> (1 < length ip \<and> hd ip = CHR ''0'') then None
           else
             (case lex_frac (dropWhile is_digit s1) of
                None \<Rightarrow> None
              | Some (fp, s3) \<Rightarrow>
                  (case lex_exp s3 of
                     None \<Rightarrow> None
                   | Some (e, s6) \<Rightarrow>
                       Some (mk_num (if neg then - int_of_digits (ip @ fp)
                                     else int_of_digits (ip @ fp))
                                    (int (length fp) - e), s6)))))"

lemma cons_char_Some: "cons_char ch res = Some (y, q) \<Longrightarrow> \<exists>z. res = Some (z, q)"
  by (cases res) auto

lemma lex_string_shorter: "lex_string s = Some (x, r) \<Longrightarrow> length r < length s"
proof (induction s arbitrary: x r rule: length_induct)
  case (1 s)
  have IH: "\<And>t z. lex_string t = Some (z, r) \<Longrightarrow> length t < length s \<Longrightarrow> length r < length s"
    using 1(1) by (meson less_trans)
  show ?case
  proof (cases s)
    case Nil
    with 1(2) show ?thesis by simp
  next
    case (Cons c cs)
    with 1(2) have
      "r = cs \<or> (\<exists>t z. lex_string t = Some (z, r) \<and> length t \<le> length cs)"
      by (auto simp: Let_def split: if_splits list.splits option.splits dest!: cons_char_Some)
    then show ?thesis
      using IH Cons by auto
  qed
qed

lemma lex_sign_length: "lex_sign s = (neg, r) \<Longrightarrow> length r \<le> length s"
  by (auto simp: lex_sign_def split: list.splits if_splits)

lemma lex_frac_length: "lex_frac s = Some (fp, r) \<Longrightarrow> length r \<le> length s"
  using length_dropWhile_le [of is_digit "tl s"]
  by (auto simp: lex_frac_def split: list.splits if_splits)

lemma lex_exp_sign_length: "lex_exp_sign s = (neg, r) \<Longrightarrow> length r \<le> length s"
  by (auto simp: lex_exp_sign_def split: list.splits if_splits)

lemma lex_exp_length: "lex_exp s = Some (e, r) \<Longrightarrow> length r \<le> length s"
proof (cases s)
  case Nil
  assume "lex_exp s = Some (e, r)"
  with Nil show ?thesis by (simp add: lex_exp_def)
next
  case (Cons c cs)
  assume a: "lex_exp s = Some (e, r)"
  show ?thesis
  proof (cases "c = CHR ''e'' \<or> c = CHR ''E''")
    case False
    with a Cons show ?thesis by (auto simp: lex_exp_def)
  next
    case True
    obtain neg t where st: "lex_exp_sign cs = (neg, t)" by (cases "lex_exp_sign cs")
    with a Cons True have "r = dropWhile is_digit t"
      by (auto simp: lex_exp_def split: if_splits)
    with lex_exp_sign_length [OF st] length_dropWhile_le [of is_digit t] Cons
    show ?thesis by simp
  qed
qed

lemma lex_number_shorter: "lex_number s = Some (n, r) \<Longrightarrow> length r < length s"
proof -
  assume a: "lex_number s = Some (n, r)"
  obtain neg s1 where sg: "lex_sign s = (neg, s1)" by (cases "lex_sign s")
  from a sg have ip: "takeWhile is_digit s1 \<noteq> []"
    by (auto simp: lex_number_def Let_def split: if_splits)
  from a sg ip obtain fp s3 where fr: "lex_frac (dropWhile is_digit s1) = Some (fp, s3)"
    by (auto simp: lex_number_def Let_def split: if_splits option.splits)
  from a sg ip fr obtain e where ex: "lex_exp s3 = Some (e, r)"
    by (auto simp: lex_number_def Let_def split: if_splits option.splits)
  have "length (takeWhile is_digit s1) + length (dropWhile is_digit s1) = length s1"
    by (metis length_append takeWhile_dropWhile_id)
  with ip have "length (dropWhile is_digit s1) < length s1"
    by (cases "takeWhile is_digit s1") auto
  with lex_sign_length [OF sg] lex_frac_length [OF fr] lex_exp_length [OF ex]
  show ?thesis by linarith
qed

fun cons_tok :: "token \<Rightarrow> token list option \<Rightarrow> token list option" where
  "cons_tok t None = None"
| "cons_tok t (Some ts) = Some (t # ts)"

function lex :: "string \<Rightarrow> token list option" where
  "lex [] = Some []"
| "lex (c # cs) =
     (if json_ws c then lex cs
      else if c = CHR ''{'' then cons_tok TLBrace (lex cs)
      else if c = CHR ''}'' then cons_tok TRBrace (lex cs)
      else if c = CHR ''['' then cons_tok TLBrack (lex cs)
      else if c = CHR '']'' then cons_tok TRBrack (lex cs)
      else if c = CHR '':'' then cons_tok TColon (lex cs)
      else if c = CHR '','' then cons_tok TComma (lex cs)
      else if c = CHR 0x22 then
        (case lex_string cs of
           None \<Rightarrow> None
         | Some (s, rest) \<Rightarrow> cons_tok (TStr s) (lex rest))
      else if c = CHR ''-'' \<or> is_digit c then
        (case lex_number (c # cs) of
           None \<Rightarrow> None
         | Some (n, rest) \<Rightarrow> cons_tok (TNum n) (lex rest))
      else if prefix ''true'' (c # cs) then cons_tok (TLit (JBool True)) (lex (drop 3 cs))
      else if prefix ''false'' (c # cs) then cons_tok (TLit (JBool False)) (lex (drop 4 cs))
      else if prefix ''null'' (c # cs) then cons_tok (TLit JNull) (lex (drop 3 cs))
      else None)"
  by pat_completeness auto
termination
proof (relation "measure length", goal_cases)
  case (9 c cs x2 s rest)
  then show ?case using lex_string_shorter [of cs s rest] by simp
next
  case (10 c cs x2 n rest)
  then show ?case using lex_number_shorter [of "c # cs" n rest] by simp
qed auto

text \<open>
  Assignment to a property, as the parser defines the members of an object one by one:
  an existing property keeps its place and takes the new value; a new property whose
  key is an array index (a canonical numeral below \<open>2 ^ 32 - 1\<close>) goes among the
  index keys in ascending order, ahead of every other key; any other new property goes
  to the end.
\<close>

definition is_array_index :: "string \<Rightarrow> bool" where
  "is_array_index k =
     (k \<noteq> [] \<and> list_all is_digit k \<and> (k = ''0'' \<or> hd k \<noteq> CHR ''0'')
      \<and> int_of_digits k < 4294967295)"

fun update_prop :: "string \<Rightarrow> json \<Rightarrow> (string \<times> json) list \<Rightarrow> (string \<times> json) list" where
  "update_prop k v [] = [(k, v)]"
| "update_prop k v ((k', v') # kvs) =
     (if k' = k then (k, v) # kvs else (k', v') # update_prop k v kvs)"

fun insert_index :: "string \<Rightarrow> json \<Rightarrow> (string \<times> json) list \<Rightarrow> (string \<times> json) list" where
  "insert_index k v [] = [(k, v)]"
| "insert_index k v ((k', v') # kvs) =
     (if is_array_index k' \<and> int_of_digits k' < int_of_digits k
      then (k', v') # insert_index k v kvs
      else (k, v) # (k', v') # kvs)"

definition set_prop :: "string \<Rightarrow> json \<Rightarrow> (string \<times> json) list \<Rightarrow> (string \<times> json) list" where
  "set_prop k v kvs =
     (if is_array_index k \<and> k \<notin> fst ` set kvs then insert_index k v kvs
      else update_prop k v kvs)"

text \<open>
  The automaton. A frame is a container under construction: an array with the elements
  read so far, or an object with its members so far and the key whose value is being
  read.
\<close>

datatype frame =
    FArr "json list"
  | FObj "(string \<times> json) list" string

datatype pstate =
    PValue "frame list"
  | PArrStart "frame list"
  | PArrNext "json list" "frame list"
  | PObjStart "frame list"
  | PKey "(string \<times> json) list" "frame list"
  | PColon "(string \<times> json) list" string "frame list"
  | PObjNext "(string \<times> json) list" "frame list"
  | PDone json
  | PFail

text \<open>A value is complete: it is the result, or it goes into the innermost container.\<close>

fun complete :: "json \<Rightarrow> frame list \<Rightarrow> pstate" where
  "complete v [] = PDone v"
| "complete v (FArr xs # st) = PArrNext (xs @ [v]) st"
| "complete v (FObj kvs k # st) = PObjNext (set_prop k v kvs) st"

text \<open>A token where a value is expected.\<close>

fun value_start :: "frame list \<Rightarrow> token \<Rightarrow> pstate" where
  "value_start st TLBrack = PArrStart st"
| "value_start st TLBrace = PObjStart st"
| "value_start st (TStr s) = complete (JStr s) st"
| "value_start st (TNum n) = complete (JNum n) st"
| "value_start st (TLit v) = complete v st"
| "value_start st t = PFail"

fun step :: "pstate \<Rightarrow> token \<Rightarrow> pstate" where
  "step (PValue st) t = value_start st t"
| "step (PArrStart st) t =
     (if t = TRBrack then complete (JArr []) st else value_start (FArr [] # st) t)"
| "step (PArrNext xs st) t =
     (if t = TComma then PValue (FArr xs # st)
      else if t = TRBrack then complete (JArr xs) st
      else PFail)"
| "step (PObjStart st) t =
     (case t of
        TRBrace \<Rightarrow> complete (JObj []) st
      | TStr k \<Rightarrow> PColon [] k st
      | _ \<Rightarrow> PFail)"
| "step (PKey kvs st) t =
     (case t of
        TStr k \<Rightarrow> PColon kvs k st
      | _ \<Rightarrow> PFail)"
| "step (PColon kvs k st) t = (if t = TColon then PValue (FObj kvs k # st) else PFail)"
| "step (PObjNext kvs st) t =
     (if t = TComma then PKey kvs st
      else if t = TRBrace then complete (JObj kvs) st
      else PFail)"
| "step (PDone v) t = PFail"
| "step PFail t = PFail"

definition JSON_parse :: "string \<Rightarrow> json option" where
  "JSON_parse s =
     (case lex s of
        None \<Rightarrow> None
      | Some ts \<Rightarrow>
          (case foldl step (PValue []) ts of
             PDone v \<Rightarrow> Some v
           | _ \<Rightarrow> None))"

section \<open>\<^verbatim>\<open>JSON.stringify\<close> and \<^verbatim>\<open>String\<close>\<close>

text \<open>
  The text of a number (\<^verbatim>\<open>Number.prototype.toString\<close>): with \<open>s\<close> the significant
  digits, \<open>k\<close> their count and \<open>n\<close> the position of the decimal point, so that the value
  is \<open>0.s * 10 ^ n\<close>. It is the text JavaScript prints for a literal of at most 15
  significant digits; a longer literal is printed by JavaScript from the nearest double.
\<close>

definition strip_zeros :: "string \<Rightarrow> string" where
  "strip_zeros s = rev (dropWhile (\<lambda>c. c = CHR ''0'') (rev s))"

fun num_to_string :: "jsnum \<Rightarrow> string" where
  "num_to_string (Dec m d) =
     (if rounds_to_zero (Dec m d) then ''0''
      else if rounds_to_infinity (Dec m d) then (if m < 0 then ''-Infinity'' else ''Infinity'')
      else
        (let ds = digits \<bar>m\<bar>;
             s = strip_zeros ds;
             k = int (length s);
             n = int (length ds) - int d;
             body =
               (if k \<le> n \<and> n \<le> 21 then s @ replicate (nat (n - k)) (CHR ''0'')
                else if 0 < n \<and> n \<le> 21 then take (nat n) s @ ''.'' @ drop (nat n) s
                else if - 6 < n \<and> n \<le> 0 then ''0.'' @ replicate (nat (- n)) (CHR ''0'') @ s
                else
                  (let e = n - 1;
                       es = (if e < 0 then ''-'' else ''+'') @ digits \<bar>e\<bar>
                   in if k = 1 then s @ ''e'' @ es
                      else take 1 s @ ''.'' @ drop 1 s @ ''e'' @ es))
         in if m < 0 then ''-'' @ body else body))"

text \<open>A string literal as \<^verbatim>\<open>JSON.stringify\<close> writes it.\<close>

definition hex_digit :: "nat \<Rightarrow> char" where
  "hex_digit n = (if n < 10 then char_of (48 + n) else char_of (87 + n))"

definition escape_char :: "char \<Rightarrow> string" where
  "escape_char c =
     (if c = CHR 0x22 then [CHR 0x5C, CHR 0x22]
      else if c = CHR 0x5C then [CHR 0x5C, CHR 0x5C]
      else if c = CHR 0x08 then [CHR 0x5C, CHR ''b'']
      else if c = CHR 0x0C then [CHR 0x5C, CHR ''f'']
      else if c = CHR 0x0A then [CHR 0x5C, CHR ''n'']
      else if c = CHR 0x0D then [CHR 0x5C, CHR ''r'']
      else if c = CHR 0x09 then [CHR 0x5C, CHR ''t'']
      else if (of_char c :: nat) < 32
        then [CHR 0x5C, CHR ''u'', CHR ''0'', CHR ''0'',
              hex_digit (of_char c div 16), hex_digit (of_char c mod 16)]
      else [c])"

definition quote :: "string \<Rightarrow> string" where
  "quote s = [CHR 0x22] @ concat (map escape_char s) @ [CHR 0x22]"

fun JSON_stringify :: "json \<Rightarrow> string" where
  "JSON_stringify JNull = ''null''"
| "JSON_stringify (JBool b) = (if b then ''true'' else ''false'')"
| "JSON_stringify (JNum n) = (if rounds_to_infinity n then ''null'' else num_to_string n)"
| "JSON_stringify (JStr s) = quote s"
| "JSON_stringify (JArr xs) = ''['' @ join '','' (map JSON_stringify xs) @ '']''"
| "JSON_stringify (JObj kvs) =
     ''{'' @ join '','' (map (\<lambda>kv. quote (fst kv) @ '':'' @ JSON_stringify (snd kv)) kvs) @ ''}''"

text \<open>
  \<^verbatim>\<open>String(x)\<close>: an array is its elements joined by commas, \<^verbatim>\<open>null\<close> among them
  giving the empty string; an object is \<^verbatim>\<open>[object Object]\<close>.
\<close>

fun js_String :: "json \<Rightarrow> string" where
  "js_String JNull = ''null''"
| "js_String (JBool b) = (if b then ''true'' else ''false'')"
| "js_String (JNum n) = num_to_string n"
| "js_String (JStr s) = s"
| "js_String (JArr xs) = join '','' (map (\<lambda>x. if x = JNull then [] else js_String x) xs)"
| "js_String (JObj kvs) = ''[object Object]''"

section \<open>The structured-response extractor\<close>

text \<open>
  The fenced-block pattern \<^verbatim>\<open>/```(?:json)?\s*([\s\S]*?)```/ig\<close>, run by \<^verbatim>\<open>exec\<close> on the
  text from \<^verbatim>\<open>lastIndex\<close> on. A match starts at the first fence; it takes the tag
  \<^verbatim>\<open>json\<close> in any letter case when the tag is there, then all white space, and the
  group is the text up to the next fence. Giving back the tag or some white space never
  helps the match, since the closing fence cannot start inside them; and when no fence
  closes the first one, none closes a later start either. The result is the group and
  the text after the match, where the next \<^verbatim>\<open>exec\<close> resumes.
\<close>

definition fence :: string where
  "fence = [CHR 0x60, CHR 0x60, CHR 0x60]"

definition skip_json_tag :: "string \<Rightarrow> string" where
  "skip_json_tag s = (if toLowerCase (take 4 s) = ''json'' then drop 4 s else s)"

definition fenced_exec :: "string \<Rightarrow> (string \<times> string) option" where
  "fenced_exec s =
     (case find_sub fence s of
        None \<Rightarrow> None
      | Some i \<Rightarrow>
          (let body = dropWhile is_space (skip_json_tag (drop (i + 3) s))
           in case find_sub fence body of
                None \<Rightarrow> None
              | Some k \<Rightarrow> Some (take k body, drop (k + 3) body)))"

lemma find_sub_bound: "find_sub pat s = Some i \<Longrightarrow> i + length pat \<le> length s"
proof (induction s arbitrary: i)
  case Nil
  then show ?case by simp
next
  case (Cons x xs)
  show ?case
  proof (cases "prefix pat (x # xs)")
    case True
    with Cons.prems have "i = 0" by simp
    with True show ?thesis by (auto dest: prefix_length_le)
  next
    case False
    with Cons.prems obtain j where "find_sub pat xs = Some j" "i = Suc j" by auto
    with Cons.IH show ?thesis by fastforce
  qed
qed

lemma fenced_exec_shorter: "fenced_exec s = Some (cap, rest) \<Longrightarrow> length rest < length s"
proof -
  assume a: "fenced_exec s = Some (cap, rest)"
  then obtain i where i: "find_sub fence s = Some i"
    by (auto simp: fenced_exec_def split: option.splits)
  define body where "body = dropWhile is_space (skip_json_tag (drop (i + 3) s))"
  from a i obtain k where "find_sub fence body = Some k" and r: "rest = drop (k + 3) body"
    by (auto simp: fenced_exec_def body_def Let_def split: option.splits)
  have "length (skip_json_tag (drop (i + 3) s)) \<le> length (drop (i + 3) s)"
    by (auto simp: skip_json_tag_def)
  then have "length body \<le> length s - (i + 3)"
    unfolding body_def
    using length_dropWhile_le [of is_space "skip_json_tag (drop (i + 3) s)"] by simp
  moreover from find_sub_bound [OF i] have "i + 3 \<le> length s" by (simp add: fence_def)
  ultimately show ?thesis using r by simp
qed

text \<open>
  Step 1, the \<^verbatim>\<open>while\<close> loop over the fenced blocks: the first block whose trimmed
  text parses ends the function with the parsed value.
\<close>

function fenced_scan :: "string \<Rightarrow> json option" where
  "fenced_scan s =
     (case fenced_exec s of
        None \<Rightarrow> None
      | Some (cap, rest) \<Rightarrow>
          (case JSON_parse (trim cap) of
             Some v \<Rightarrow> Some v
           | None \<Rightarrow> fenced_scan rest))"
  by pat_completeness auto
termination
  by (relation "measure length") (auto dest: fenced_exec_shorter)

declare fenced_scan.simps [simp del]

text \<open>
  Step 2's inner loop \<^verbatim>\<open>for (let j = lastBrace; j > i; j--)\<close> and outer loop
  \<^verbatim>\<open>for (let i = firstBrace; i < lastBrace; i++)\<close>. The indices stay below the length
  of the text.
\<close>

fun scan_close :: "string \<Rightarrow> nat \<Rightarrow> nat \<Rightarrow> json option" where
  "scan_close text i 0 = None"
| "scan_close text i (Suc j) =
     (if i < Suc j then
        (if text ! Suc j \<noteq> CHR ''}'' then scan_close text i j
         else (case JSON_parse (slice text i (Suc j + 1)) of
                 Some v \<Rightarrow> Some v
               | None \<Rightarrow> scan_close text i j))
      else None)"

function scan_open :: "string \<Rightarrow> nat \<Rightarrow> nat \<Rightarrow> json option" where
  "scan_open text i lastBrace =
     (if i < lastBrace then
        (if text ! i \<noteq> CHR ''{'' then scan_open text (Suc i) lastBrace
         else (case scan_close text i lastBrace of
                 Some v \<Rightarrow> Some v
               | None \<Rightarrow> scan_open text (Suc i) lastBrace))
      else None)"
  by pat_completeness auto
termination
  by (relation "measure (\<lambda>(text, i, lastBrace). lastBrace - i)") auto

declare scan_open.simps [simp del]

text \<open>
  \<^verbatim>\<open>extractJSONFromText(text)\<close>. The argument is any value (the orchestrator passes
  what it collected); the result \<^verbatim>\<open>null\<close> is \<open>JNull\<close>, whether nothing parsed or the
  text \<^verbatim>\<open>null\<close> did.
\<close>

fun extractJSONFromText :: "json \<Rightarrow> json" where
  "extractJSONFromText (JStr text) =
     (if text = [] then JNull
      else
        (case fenced_scan text of
           Some v \<Rightarrow> v
         | None \<Rightarrow>
             (case (indexOf text (CHR ''{''), lastIndexOf text (CHR ''}'')) of
                (Some firstBrace, Some lastBrace) \<Rightarrow>
                  if firstBrace < lastBrace then
                    (case JSON_parse (slice text firstBrace (lastBrace + 1)) of
                       Some v \<Rightarrow> v
                     | None \<Rightarrow>
                         (case scan_open text firstBrace lastBrace of
                            Some v \<Rightarrow> v
                          | None \<Rightarrow> JNull))
                  else JNull
              | _ \<Rightarrow> JNull)))"
| "extractJSONFromText v = JNull"

section \<open>Configuration and outbound calls\<close>

text \<open>
  The two keys are read from the environment once; a key that is not set is \<open>None\<close>,
  and \<^verbatim>\<open>!KEY\<close> also holds of the empty string.
\<close>

record config =
  SERPAPI_KEY :: "string option"
  GEMINI_KEY :: "string option"

fun unset :: "string option \<Rightarrow> bool" where
  "unset None = True"
| "unset (Some k) = (k = [])"

text \<open>
  What the network does is an input of the model. A \<^verbatim>\<open>fetch\<close> raced against the
  timer either loses the race or settles, rejected with an error or fulfilled with a
  response; reading the body of a response as text or as JSON may in turn reject.
\<close>

record http_response =
  status :: nat
  body_text :: "js_error + string"
  body_json :: "js_error + json"

datatype fetch = TimedOut | Settled "js_error + http_response"

fun timeoutPromise :: "fetch \<Rightarrow> js_error + http_response" where
  "timeoutPromise TimedOut = Inl (Error ''timeout'')"
| "timeoutPromise (Settled r) = r"

definition ok :: "http_response \<Rightarrow> bool" where
  "ok r = (200 \<le> status r \<and> status r \<le> 299)"

text \<open>
  \<^verbatim>\<open>webSearch(query)\<close>, given what the fetch of the search URL does. The query only
  shapes the URL; \<^verbatim>\<open>encodeURIComponent\<close> throws on a lone surrogate only, a code unit
  that a string of the model does not have.
\<close>

definition webSearch :: "config \<Rightarrow> string \<Rightarrow> fetch \<Rightarrow> json" where
  "webSearch cfg query f =
     (if unset (SERPAPI_KEY cfg) then JObj [(''error'', JStr ''SERPAPI_KEY not configured'')]
      else
        (case timeoutPromise f of
           Inl err \<Rightarrow> JObj [(''error'', JStr (''SerpApi fetch error: '' @ error_to_string err))]
         | Inr r \<Rightarrow>
             if \<not> ok r then
               (case body_text r of
                  Inl err \<Rightarrow>
                    JObj [(''error'', JStr (''SerpApi fetch error: '' @ error_to_string err))]
                | Inr txt \<Rightarrow>
                    JObj [(''error'',
                           JStr (''SerpApi HTTP '' @ digits (int (status r)) @ '': '' @ txt))])
             else
               (case body_json r of
                  Inl err \<Rightarrow>
                    JObj [(''error'', JStr (''SerpApi fetch error: '' @ error_to_string err))]
                | Inr j \<Rightarrow> j)))"

text \<open>
  \<^verbatim>\<open>askGemini(prompt)\<close>, given what the fetch of the model URL does: \<open>Inl\<close> is the
  error it throws. The status of the response is not looked at.
\<close>

definition askGemini :: "config \<Rightarrow> string \<Rightarrow> fetch \<Rightarrow> js_error + json" where
  "askGemini cfg prompt f =
     (if unset (GEMINI_KEY cfg) then Inl (Error ''GEMINI_API_KEY not set in server environment.'')
      else
        (case timeoutPromise f of
           Inl err \<Rightarrow> Inl (Error (''Gemini call failed: '' @ message err))
         | Inr r \<Rightarrow>
             (case body_json r of
                Inl err \<Rightarrow> Inl (Error (''Gemini call failed: '' @ message err))
              | Inr j \<Rightarrow> Inr j)))"

section \<open>The recommendation endpoint\<close>

text \<open>
  The request body \<^verbatim>\<open>{query, products}\<close>: the query is a string or missing, the
  products are the catalog entries of the client.
\<close>

record product =
  id' :: string
  name :: string
  price :: jsnum
  category :: string
  features :: "string list"

record request =
  body_query :: "string option"
  body_products :: "product list"

datatype response = Response nat json

fun product_json :: "product \<Rightarrow> json" where
  "product_json p =
     JObj [(''id'', JStr (id' p)), (''name'', JStr (name p)), (''price'', JNum (price p)),
           (''category'', JStr (category p)), (''features'', JArr (map JStr (features p)))]"

text \<open>Running a loop body over a list, the first error ending the loop.\<close>

fun for_each :: "('a \<Rightarrow> js_error + 'b list) \<Rightarrow> 'a list \<Rightarrow> js_error + 'b list" where
  "for_each f [] = Inr []"
| "for_each f (x # xs) =
     (case f x of
        Inl e \<Rightarrow> Inl e
      | Inr ys \<Rightarrow>
          (case for_each f xs of
             Inl e \<Rightarrow> Inl e
           | Inr zs \<Rightarrow> Inr (ys @ zs)))"

text \<open>The snippets: at most five organic results, or the search error.\<close>

fun snippet_of :: "json \<Rightarrow> js_error + json list" where
  "snippet_of item =
     (case read_prop item ''title'' of
        Inl e \<Rightarrow> Inl e
      | Inr title \<Rightarrow>
          Inr [object_of
                 [(''title'', title),
                  (''snippet'',
                   js_or (js_or (get_prop item ''snippet'') (get_prop item ''description''))
                         (Some (JStr []))),
                  (''link'', js_or (get_prop item ''link'') (get_prop item ''source''))]])"

definition build_snippets :: "json \<Rightarrow> js_error + json list" where
  "build_snippets web =
     (if truthy web \<and> truthy_opt (get_prop web ''organic_results'')
         \<and> isArray (get_prop web ''organic_results'')
      then (case get_prop web ''organic_results'' of
              Some (JArr items) \<Rightarrow> for_each snippet_of (take 5 items)
            | _ \<Rightarrow> Inr [])
      else if truthy web \<and> truthy_opt (get_prop web ''error'')
      then (case get_prop web ''error'' of
              Some err \<Rightarrow> Inr [JObj [(''title'', JStr ''search-error''), (''snippet'', err)]]
            | None \<Rightarrow> Inr [])
      else Inr [])"

definition build_prompt :: "string \<Rightarrow> product list \<Rightarrow> json list \<Rightarrow> string" where
  \<open>build_prompt query products snippets =
     ''\<newline>You are an assistant that recommends products from a small catalog.\<newline>User request: "''
     @ query @ ''"\<newline>\<newline>Catalog: '' @ JSON_stringify (JArr (map product_json products))
     @ ''\<newline>\<newline>Web snippets: '' @ JSON_stringify (JArr snippets)
     @ ''\<newline>\<newline>INSTRUCTIONS:\<newline>Return ONLY a JSON object in a fenced code block with keys:\<newline>''
     @ ''{ "recommended_ids": [ "p1", "p2" ], "reason": "short explanation", "sources": [ { "title": "...", "link": "..." } ] }''
     @ ''\<newline>\<newline>Respond with a fenced JSON block like:\<newline>\<newline>'' @ fence @ ''json\<newline>''
     @ ''{ "recommended_ids": [...], "reason": "...", "sources": [...] }\<newline>'' @ fence
     @ ''\<newline>\<newline>Do not include any other text.\<newline>''\<close>

text \<open>
  The text candidates. First the shape \<^verbatim>\<open>gem.candidates[].content\<close>, with
  \<^verbatim>\<open>display\<close> and \<^verbatim>\<open>text\<close>; then the shape \<^verbatim>\<open>gem.output[]\<close>; last the whole reply
  as text. A \<^verbatim>\<open>null\<close> where an object is read throws.
\<close>

fun content_part :: "json \<Rightarrow> js_error + json list" where
  "content_part c =
     (case read_prop c ''text'' of
        Inl e \<Rightarrow> Inl e
      | Inr t \<Rightarrow>
          Inr (case t of
                 Some (JStr s) \<Rightarrow> [JStr s]
               | _ \<Rightarrow> (case c of JStr s \<Rightarrow> [JStr s] | _ \<Rightarrow> [])))"

fun pushed_if_truthy :: "json option \<Rightarrow> (json \<Rightarrow> json) \<Rightarrow> json list" where
  "pushed_if_truthy None f = []"
| "pushed_if_truthy (Some v) f = (if truthy v then [f v] else [])"

fun candidate_texts :: "json \<Rightarrow> js_error + json list" where
  "candidate_texts cand =
     (case read_prop cand ''content'' of
        Inl e \<Rightarrow> Inl e
      | Inr content \<Rightarrow>
          (case (case content of
                   Some (JArr cs) \<Rightarrow> for_each content_part cs
                 | Some (JStr s) \<Rightarrow> Inr (if s = [] then [] else [JStr s])
                 | _ \<Rightarrow> Inr [])
           of
             Inl e \<Rightarrow> Inl e
           | Inr from_content \<Rightarrow>
               Inr (from_content
                    @ pushed_if_truthy (get_prop cand ''display'') (\<lambda>v. JStr (js_String v))
                    @ pushed_if_truthy (get_prop cand ''text'') (\<lambda>v. JStr (js_String v)))))"

fun output_part :: "json \<Rightarrow> js_error + json list" where
  "output_part c =
     (case read_prop c ''text'' of
        Inl e \<Rightarrow> Inl e
      | Inr t \<Rightarrow> Inr (pushed_if_truthy t (\<lambda>v. v)))"

fun output_texts :: "json \<Rightarrow> js_error + json list" where
  "output_texts out =
     (case read_prop out ''content'' of
        Inl e \<Rightarrow> Inl e
      | Inr content \<Rightarrow>
          (case (case content of
                   Some (JArr cs) \<Rightarrow> for_each output_part cs
                 | _ \<Rightarrow> Inr [])
           of
             Inl e \<Rightarrow> Inl e
           | Inr from_content \<Rightarrow>
               Inr (from_content @ pushed_if_truthy (get_prop out ''text'') (\<lambda>v. v))))"

definition collect_candidates :: "json \<Rightarrow> js_error + json list" where
  "collect_candidates gem =
     (case (case get_prop gem ''candidates'' of
              Some (JArr cands) \<Rightarrow> for_each candidate_texts cands
            | _ \<Rightarrow> Inr [])
      of
        Inl e \<Rightarrow> Inl e
      | Inr first \<Rightarrow>
          (case (case get_prop gem ''output'' of
                   Some (JArr outs) \<Rightarrow> for_each output_texts outs
                 | _ \<Rightarrow> Inr [])
           of
             Inl e \<Rightarrow> Inl e
           | Inr second \<Rightarrow> Inr (first @ second @ [JStr (JSON_stringify gem)])))"

text \<open>
  The loop over the candidates: \<^verbatim>\<open>parsed = extractJSONFromText(txt); if (parsed) break;\<close>.
  The result is the value of \<^verbatim>\<open>parsed\<close> after the loop.
\<close>

fun try_candidates :: "json \<Rightarrow> json list \<Rightarrow> json" where
  "try_candidates parsed [] = parsed"
| "try_candidates parsed (txt # rest) =
     (if truthy (extractJSONFromText txt) then extractJSONFromText txt
      else try_candidates (extractJSONFromText txt) rest)"

text \<open>The test \<^verbatim>\<open>parsed && Array.isArray(parsed.recommended_ids)\<close>.\<close>

definition accepted :: "json \<Rightarrow> bool" where
  "accepted parsed = (truthy parsed \<and> isArray (get_prop parsed ''recommended_ids''))"

subsection \<open>The fallback heuristic\<close>

text \<open>
  The price pattern \<^verbatim>\<open>/(under|below|<)\s*\$?(\d{1,6})/\<close>: \<open>price_at\<close> tries it at the head
  of the text and gives the second group, \<open>price_match\<close> finds the leftmost match.
\<close>

definition price_at :: "string \<Rightarrow> string option" where
  "price_at s =
     (case (if prefix ''under'' s then Some (drop 5 s)
            else if prefix ''below'' s then Some (drop 5 s)
            else if prefix ''<'' s then Some (drop 1 s)
            else None)
      of
        None \<Rightarrow> None
      | Some after \<Rightarrow>
          (let t = dropWhile is_space after;
               u = (case t of [] \<Rightarrow> t | c # cs \<Rightarrow> if c = CHR ''$'' then cs else t);
               ds = take 6 (takeWhile is_digit u)
           in if ds = [] then None else Some ds))"

fun price_match :: "string \<Rightarrow> string option" where
  "price_match [] = None"
| "price_match (c # cs) =
     (case price_at (c # cs) of
        Some ds \<Rightarrow> Some ds
      | None \<Rightarrow> price_match cs)"

definition matches :: "string \<Rightarrow> product \<Rightarrow> bool" where
  "matches t p =
     (str_includes (toLowerCase (name p)) t \<or> str_includes (category p) t
      \<or> str_includes (toLowerCase (join '' '' (features p))) t)"

definition score :: "string list \<Rightarrow> product \<Rightarrow> int" where
  "score tokens p = int (length (filter (\<lambda>t. matches t p) tokens))"

text \<open>
  \<^verbatim>\<open>Array.prototype.sort\<close> with a comparison function: the sort is stable, and for a
  comparison that comes from a score the result is the one of insertion from the right.
\<close>

fun insert_by :: "('a \<Rightarrow> 'a \<Rightarrow> int) \<Rightarrow> 'a \<Rightarrow> 'a list \<Rightarrow> 'a list" where
  "insert_by cmp x [] = [x]"
| "insert_by cmp x (y # ys) = (if cmp x y \<le> 0 then x # y # ys else y # insert_by cmp x ys)"

fun sort_by :: "('a \<Rightarrow> 'a \<Rightarrow> int) \<Rightarrow> 'a list \<Rightarrow> 'a list" where
  "sort_by cmp [] = []"
| "sort_by cmp (x # xs) = insert_by cmp x (sort_by cmp xs)"

definition price_filter :: "string \<Rightarrow> product list \<Rightarrow> product list" where
  "price_filter lower products =
     (case price_match lower of
        None \<Rightarrow> products
      | Some ds \<Rightarrow> filter (\<lambda>p. num_le (price p) (Dec (int_of_digits ds) 0)) products)"

definition fallback_ids :: "string \<Rightarrow> product list \<Rightarrow> string list" where
  "fallback_ids query products =
     (let lower = toLowerCase query;
          filtered = price_filter lower products;
          tokens = tokens_of lower
      in map id' (take 3 (sort_by (\<lambda>a b. score tokens b - score tokens a) filtered)))"

definition fallback_response :: "string \<Rightarrow> product list \<Rightarrow> json list \<Rightarrow> json list \<Rightarrow> json" where
  "fallback_response query products snippets textCandidates =
     JObj [(''recommended_ids'', JArr (map JStr (fallback_ids query products))),
           (''reason'', JStr ''Fallback heuristic (Gemini did not return machine-readable JSON).''),
           (''sources'', JArr snippets),
           (''debug'', JObj [(''gemini_candidates_tried'', JArr (take 3 textCandidates))])]"

subsection \<open>The handler\<close>

text \<open>
  The network as the handler meets it: what the search fetch does for a query and what
  the model fetch does for a prompt.
\<close>

record network =
  search_fetch :: "string \<Rightarrow> fetch"
  model_fetch :: "string \<Rightarrow> fetch"

text \<open>
  The body of the \<^verbatim>\<open>try\<close> block, \<open>Inl\<close> being what it throws, in three parts: the
  answer once the candidates are collected, the handler from the prompt on, and the
  handler from its start.
\<close>

definition respond :: "string \<Rightarrow> product list \<Rightarrow> json list \<Rightarrow> json list \<Rightarrow> response" where
  "respond query products snippets textCandidates =
     (let parsed = try_candidates JNull textCandidates
      in if accepted parsed then Response 200 parsed
         else Response 200 (fallback_response query products snippets textCandidates))"

definition after_search ::
  "config \<Rightarrow> network \<Rightarrow> string \<Rightarrow> product list \<Rightarrow> json list \<Rightarrow> js_error + response" where
  "after_search cfg net query products snippets =
     (let prompt = build_prompt query products snippets
      in case askGemini cfg prompt (model_fetch net prompt) of
           Inl e \<Rightarrow> Inl e
         | Inr gem \<Rightarrow>
             (case collect_candidates gem of
                Inl e \<Rightarrow> Inl e
              | Inr textCandidates \<Rightarrow> Inr (respond query products snippets textCandidates)))"

definition recommend_try :: "config \<Rightarrow> network \<Rightarrow> request \<Rightarrow> js_error + response" where
  "recommend_try cfg net req =
     (case body_query req of
        None \<Rightarrow> Inr (Response 400 (JObj [(''error'', JStr ''missing query'')]))
      | Some query \<Rightarrow>
          if query = [] then Inr (Response 400 (JObj [(''error'', JStr ''missing query'')]))
          else
            (case build_snippets (webSearch cfg query (search_fetch net query)) of
               Inl e \<Rightarrow> Inl e
             | Inr snippets \<Rightarrow> after_search cfg net query (body_products req) snippets))"

text \<open>The handler with its \<^verbatim>\<open>catch\<close>: an error becomes a 500 response.\<close>

definition recommend :: "config \<Rightarrow> network \<Rightarrow> request \<Rightarrow> response" where
  "recommend cfg net req =
     (case recommend_try cfg net req of
        Inl err \<Rightarrow> Response 500 (JObj [(''error'', JStr (error_to_string err))])
      | Inr r \<Rightarrow> r)"

section \<open>The client\<close>

definition PRODUCTS :: "product list" where
  "PRODUCTS =
     [\<lparr>id' = ''p1'', name = ''PocketPhone A1'', price = Dec 299 0, category = ''phone'',
       features = [''5.5in'', ''64GB'', ''dual-sim'']\<rparr>,
      \<lparr>id' = ''p2'', name = ''PocketPhone Pro'', price = Dec 549 0, category = ''phone'',
       features = [''6.2in'', ''128GB'', ''fast-charge'']\<rparr>,
      \<lparr>id' = ''p3'', name = ''BudgetPhone B2'', price = Dec 199 0, category = ''phone'',
       features = [''5.0in'', ''32GB'']\<rparr>,
      \<lparr>id' = ''p4'', name = ''CameraZoom X'', price = Dec 699 0, category = ''camera'',
       features = [''50MP'', ''optical-zoom'']\<rparr>,
      \<lparr>id' = ''p5'', name = ''WorkTablet T1'', price = Dec 429 0, category = ''tablet'',
       features = [''10in'', ''64GB'']\<rparr>,
      \<lparr>id' = ''p6'', name = ''Lifestyle Earbuds'', price = Dec 89 0, category = ''audio'',
       features = [''noise-cancel'', ''bluetooth 5.2'']\<rparr>]"

text \<open>
  \<^verbatim>\<open>handleRecommend\<close> up to the request it sends: a query that is blank after
  \<^verbatim>\<open>trim\<close> sets the error message and sends nothing.
\<close>

datatype client_action = SetError string | Post request

definition handleRecommend :: "string \<Rightarrow> client_action" where
  "handleRecommend query =
     (if trim query = [] then SetError ''Enter something like: I want a phone under $500''
      else Post \<lparr>body_query = Some query, body_products = PRODUCTS\<rparr>)"

section \<open>Notions of the specification\<close>

text \<open>
  The fenced blocks of a text: the groups of all the matches of the fenced-block
  pattern, in order of appearance, and the first of a list of blocks whose trimmed text
  parses.
\<close>

function fenced_blocks :: "string \<Rightarrow> string list" where
  "fenced_blocks s =
     (case fenced_exec s of
        None \<Rightarrow> []
      | Some (cap, rest) \<Rightarrow> cap # fenced_blocks rest)"
  by pat_completeness auto
termination
  by (relation "measure length") (auto dest: fenced_exec_shorter)

declare fenced_blocks.simps [simp del]

fun first_parse :: "string list \<Rightarrow> json option" where
  "first_parse [] = None"
| "first_parse (b # bs) =
     (case JSON_parse (trim b) of
        Some v \<Rightarrow> Some v
      | None \<Rightarrow> first_parse bs)"

text \<open>
  A failure of the search provider: the fetch timed out, was rejected, or brought a
  response whose status is not 2xx. The snippet that stands for a search error.
\<close>

fun search_failure :: "fetch \<Rightarrow> bool" where
  "search_failure TimedOut = True"
| "search_failure (Settled (Inl e)) = True"
| "search_failure (Settled (Inr r)) = (\<not> ok r)"

definition search_error_snippet :: "string \<Rightarrow> json" where
  "search_error_snippet msg = JObj [(''title'', JStr ''search-error''), (''snippet'', JStr msg)]"

definition error_response :: "nat \<Rightarrow> string \<Rightarrow> response" where
  "error_response st msg = Response st (JObj [(''error'', JStr msg)])"

section \<open>Scenarios\<close>

text \<open>
  Texts a model may reply with: a fenced block after prose that holds unfenced JSON, two
  fenced blocks of which the first is a number, and a fenced number alone.
\<close>

definition fenced_reply :: string where
  \<open>fenced_reply =
     ''Maybe {"recommended_ids":["p2"]}? Sure! '' @ fence @ ''json\<newline>''
     @ ''{"recommended_ids":["p1"],"reason":"ok","sources":[]}\<newline>'' @ fence\<close>

definition two_blocks :: string where
  \<open>two_blocks =
     fence @ ''1'' @ fence @ ''\<newline>'' @ fence @ ''json\<newline>{"recommended_ids":["p1"]}\<newline>'' @ fence\<close>

definition fenced_number :: string where
  "fenced_number = fence @ ''1'' @ fence"


text \<open>
  A reply of the model with two candidates: the first holds a fenced object without
  \<^verbatim>\<open>recommended_ids\<close>, the second a fenced recommendation.
\<close>

definition shadowed_reply :: json where
  \<open>shadowed_reply =
     JObj [(''candidates'',
            JArr [JObj [(''content'', JStr (fence @ ''{"x":1}'' @ fence))],
                  JObj [(''content'', JStr (fence @ ''{"recommended_ids":["p1"]}'' @ fence))]])]\<close>

text \<open>The query of the specification's fallback scenario.\<close>

definition phone_query :: string where
  "phone_query = ''I want a phone under $500''"

text \<open>
  Configurations with one key missing and with both keys, a network on which every
  search times out and the model replies \<^verbatim>\<open>{}\<close>, and two requests.
\<close>

definition no_search_key :: config where
  "no_search_key = \<lparr>SERPAPI_KEY = None, GEMINI_KEY = Some ''model-key''\<rparr>"

definition no_model_key :: config where
  "no_model_key = \<lparr>SERPAPI_KEY = Some ''search-key'', GEMINI_KEY = None\<rparr>"

definition both_keys :: config where
  "both_keys = \<lparr>SERPAPI_KEY = Some ''search-key'', GEMINI_KEY = Some ''model-key''\<rparr>"

definition json_reply :: "nat \<Rightarrow> json \<Rightarrow> fetch" where
  "json_reply st j =
     Settled (Inr \<lparr>status = st, body_text = Inr (JSON_stringify j), body_json = Inr j\<rparr>)"

definition quiet_network :: network where
  "quiet_network =
     \<lparr>search_fetch = (\<lambda>query. TimedOut), model_fetch = (\<lambda>prompt. json_reply 200 (JObj []))\<rparr>"

definition phone_request :: request where
  "phone_request = \<lparr>body_query = Some ''phone'', body_products = []\<rparr>"

definition blank_request :: request where
  "blank_request = \<lparr>body_query = Some ''   '', body_products = []\<rparr>"

text \<open>
  An error body as the model provider sends it with a status that is not 2xx, and
  networks whose model fetch brings that body with status 400, and a body with a
  \<^verbatim>\<open>null\<close> candidate with status 500.
\<close>

definition provider_error_body :: json where
  "provider_error_body =
     JObj [(''error'',
            JObj [(''code'', JNum (Dec 400 0)), (''message'', JStr ''API key not valid''),
                  (''status'', JStr ''INVALID_ARGUMENT'')])]"

definition error_reply_network :: network where
  "error_reply_network =
     \<lparr>search_fetch = (\<lambda>query. TimedOut),
      model_fetch = (\<lambda>prompt. json_reply 400 provider_error_body)\<rparr>"

definition null_candidate_network :: network where
  "null_candidate_network =
     \<lparr>search_fetch = (\<lambda>query. TimedOut),
      model_fetch = (\<lambda>prompt. json_reply 500 (JObj [(''candidates'', JArr [JNull])]))\<rparr>"

text \<open>
  A network whose model fetch brings \<open>shadowed_reply\<close>, and a request for a phone over
  the catalog of the client.
\<close>

definition shadowed_network :: network where
  "shadowed_network =
     \<lparr>search_fetch = (\<lambda>query. TimedOut), model_fetch = (\<lambda>prompt. json_reply 200 shadowed_reply)\<rparr>"

definition catalog_request :: request where
  "catalog_request = \<lparr>body_query = Some ''phone'', body_products = PRODUCTS\<rparr>"

section \<open>Properties of the extractor\<close>

lemma indexOf_absent: "c \<notin> set s \<Longrightarrow> indexOf s c = None"
  by (induction s) auto

lemma fenced_exec_Nil: "fenced_exec [] = None"
  by (simp add: fenced_exec_def)

lemma fenced_blocks_Nil: "fenced_blocks [] = []"
  by (simp add: fenced_blocks.simps fenced_exec_Nil)

lemma fenced_scan_first_parse: "fenced_scan s = first_parse (fenced_blocks s)"
proof (induction s rule: fenced_scan.induct)
  case (1 s)
  show ?case
  proof (cases "fenced_exec s")
    case None
    then show ?thesis
      by (simp add: fenced_scan.simps [of s] fenced_blocks.simps [of s])
  next
    case (Some m)
    obtain cap rest where m: "m = (cap, rest)" by (cases m)
    have fs: "fenced_scan s = (case JSON_parse (trim cap) of Some v \<Rightarrow> Some v | None \<Rightarrow> fenced_scan rest)"
      using Some m by (subst fenced_scan.simps) simp
    have fb: "fenced_blocks s = cap # fenced_blocks rest"
      using Some m by (subst fenced_blocks.simps) simp
    show ?thesis
    proof (cases "JSON_parse (trim cap)")
      case None
      from 1 [OF Some m [symmetric] None] have "fenced_scan rest = first_parse (fenced_blocks rest)" .
      with None fs fb show ?thesis by simp
    next
      case (Some v)
      with fs fb show ?thesis by simp
    qed
  qed
qed

lemma first_parse_skip:
  "\<forall>c \<in> set pre. JSON_parse (trim c) = None \<Longrightarrow> first_parse (pre @ bs) = first_parse bs"
  by (induction pre) auto

lemma extract_fenced:
  assumes "first_parse (fenced_blocks text) = Some v"
  shows "extractJSONFromText (JStr text) = v"
proof -
  from assms have "text \<noteq> []" by (auto simp: fenced_blocks_Nil)
  moreover from assms have "fenced_scan text = Some v" by (simp add: fenced_scan_first_parse)
  ultimately show ?thesis by simp
qed

lemma extract_unfenced_no_braces:
  assumes "first_parse (fenced_blocks text) = None" and "CHR ''{'' \<notin> set text"
  shows "extractJSONFromText (JStr text) = JNull"
proof (cases "text = []")
  case True
  then show ?thesis by simp
next
  case False
  moreover from assms have "fenced_scan text = None" by (simp add: fenced_scan_first_parse)
  moreover from assms have "indexOf text (CHR ''{'') = None" by (simp add: indexOf_absent)
  ultimately show ?thesis by simp
qed


lemma prefix_fence_Cons: "prefix fence (x # xs) \<Longrightarrow> x = CHR 0x60"
  by (simp add: fence_def)

lemma find_sub_fence_here: "find_sub fence (fence @ rest) = Some 0"
  by (simp add: fence_def)

lemma find_sub_fence_first:
  "CHR 0x60 \<notin> set pre \<Longrightarrow> find_sub fence (pre @ fence @ rest) = Some (length pre)"
proof (induction pre)
  case Nil
  show ?case using find_sub_fence_here by simp
next
  case (Cons x pre)
  then have "\<not> prefix fence (x # pre @ fence @ rest)"
    using prefix_fence_Cons by fastforce
  with Cons show ?case by simp
qed

lemma dropWhile_append_stop: "\<not> P y \<Longrightarrow> dropWhile P (xs @ y # ys) = dropWhile P xs @ y # ys"
  by (induction xs) auto

lemma lower_char_backtick: "lower_char (CHR 0x60) = CHR 0x60"
  by (simp add: lower_char_def)

lemma toLowerCase_json_no_backtick:
  assumes "toLowerCase t = ''json''"
  shows "CHR 0x60 \<notin> set t \<and> length t = 4"
proof -
  from assms have "length (toLowerCase t) = length ''json''" by simp
  then have len: "length t = 4" by (simp add: toLowerCase_def)
  have "CHR 0x60 \<notin> set (toLowerCase t)" using assms by simp
  moreover have "CHR 0x60 \<in> set t \<Longrightarrow> CHR 0x60 \<in> set (toLowerCase t)"
    unfolding toLowerCase_def using lower_char_backtick by force
  ultimately show ?thesis using len by blast
qed

lemma skip_json_tag_append:
  assumes "CHR 0x60 \<notin> set body"
  shows "skip_json_tag (body @ fence @ post) = skip_json_tag body @ fence @ post"
proof (cases "4 \<le> length body")
  case True
  then show ?thesis by (simp add: skip_json_tag_def)
next
  case False
  then have short: "length body < 4" by simp
  then have "toLowerCase (take 4 body) \<noteq> ''json''"
    using toLowerCase_json_no_backtick [of "take 4 body"] by auto
  moreover have "toLowerCase (take 4 (body @ fence @ post)) \<noteq> ''json''"
  proof
    assume "toLowerCase (take 4 (body @ fence @ post)) = ''json''"
    from toLowerCase_json_no_backtick [OF this]
    have "CHR 0x60 \<notin> set (take 4 (body @ fence @ post))" by simp
    moreover have "CHR 0x60 \<in> set (take 4 (body @ fence @ post))"
    proof -
      from short obtain n where "4 - length body = Suc n"
        by (cases "4 - length body") auto
      then show ?thesis by (simp add: fence_def)
    qed
    ultimately show False by contradiction
  qed
  ultimately show ?thesis by (simp add: skip_json_tag_def)
qed

lemma skip_json_tag_subset: "set (skip_json_tag s) \<subseteq> set s"
  by (auto simp: skip_json_tag_def dest: in_set_dropD)

lemma not_space_backtick: "\<not> is_space (CHR 0x60)"
  by (simp add: is_space_def)

lemma fenced_exec_first:
  assumes "CHR 0x60 \<notin> set pre" and "CHR 0x60 \<notin> set body"
  shows "fenced_exec (pre @ fence @ body @ fence @ post)
           = Some (dropWhile is_space (skip_json_tag body), post)"
proof -
  define cap where "cap = dropWhile is_space (skip_json_tag body)"
  have i: "find_sub fence (pre @ fence @ body @ fence @ post) = Some (length pre)"
    using find_sub_fence_first [OF assms(1)] by simp
  have d: "drop (length pre + 3) (pre @ fence @ body @ fence @ post) = body @ fence @ post"
    by (simp add: fence_def)
  have f: "fence @ post = CHR 0x60 # tl fence @ post" by (simp add: fence_def)
  have s1: "skip_json_tag (body @ fence @ post) = skip_json_tag body @ fence @ post"
    by (rule skip_json_tag_append [OF assms(2)])
  have s2: "dropWhile is_space (skip_json_tag body @ fence @ post) = cap @ fence @ post"
    unfolding f cap_def
    by (rule dropWhile_append_stop [of is_space "CHR 0x60", OF not_space_backtick])
  have b: "dropWhile is_space (skip_json_tag (body @ fence @ post)) = cap @ fence @ post"
    by (simp only: s1 s2)
  have "set cap \<subseteq> set body"
    unfolding cap_def using set_dropWhileD skip_json_tag_subset by fastforce
  with assms(2) have "CHR 0x60 \<notin> set cap" by blast
  from find_sub_fence_first [OF this]
  have k: "find_sub fence (cap @ fence @ post) = Some (length cap)" .
  have len3: "length fence = 3" by (simp add: fence_def)
  have tk: "take (length cap) (cap @ fence @ post) = cap" by simp
  have dr: "drop (length cap + 3) (cap @ fence @ post) = post" using len3 by simp
  have "fenced_exec (pre @ fence @ body @ fence @ post) = Some (cap, post)"
    unfolding fenced_exec_def
    by (simp only: i d b k Let_def option.case tk dr)
  then show ?thesis by (simp add: cap_def)
qed

lemma fenced_blocks_first:
  assumes "CHR 0x60 \<notin> set pre" and "CHR 0x60 \<notin> set body"
  shows "fenced_blocks (pre @ fence @ body @ fence @ post)
           = dropWhile is_space (skip_json_tag body) # fenced_blocks post"
  by (subst fenced_blocks.simps) (simp add: fenced_exec_first [OF assms])

lemma fenced_blocks_no_fence: "find_sub fence s = None \<Longrightarrow> fenced_blocks s = []"
  by (subst fenced_blocks.simps) (simp add: fenced_exec_def)

lemma find_sub_absent: "CHR 0x60 \<notin> set s \<Longrightarrow> find_sub fence s = None"
proof (induction s)
  case Nil
  show ?case by simp
next
  case (Cons x xs)
  then have "\<not> prefix fence (x # xs)" using prefix_fence_Cons by fastforce
  with Cons show ?case by simp
qed

text \<open>
  C2, as the code has it. The fenced blocks are tried in order of appearance, each
  trimmed and parsed strictly, and the value of the first block that parses is the
  result, whatever JSON the text holds outside the fences. A fenced object with a
  \<^verbatim>\<open>recommended_ids\<close> array is therefore returned when no fenced block before it
  parses; a block before it that parses (the number of \<open>two_blocks\<close>) is returned in its
  place.
\<close>

theorem fenced_block_first_wins:
  assumes "fenced_blocks text = pre @ b # post"
    and "\<forall>c \<in> set pre. JSON_parse (trim c) = None"
    and "JSON_parse (trim b) = Some v"
  shows "extractJSONFromText (JStr text) = v"
proof -
  from assms have "first_parse (fenced_blocks text) = Some v"
    by (simp add: first_parse_skip)
  then show ?thesis by (rule extract_fenced)
qed


theorem fenced_block_first_wins_witness:
  \<open>fenced_blocks fenced_reply
       = [''{"recommended_ids":["p1"],"reason":"ok","sources":[]}\<newline>'']
     \<and> extractJSONFromText (JStr fenced_reply)
         = JObj [(''recommended_ids'', JArr [JStr ''p1'']), (''reason'', JStr ''ok''),
                 (''sources'', JArr [])]\<close>
proof -
  have b: \<open>fenced_blocks fenced_reply
             = [] @ ''{"recommended_ids":["p1"],"reason":"ok","sources":[]}\<newline>'' # []\<close>
    by code_simp
  have p: \<open>JSON_parse (trim ''{"recommended_ids":["p1"],"reason":"ok","sources":[]}\<newline>'')
             = Some (JObj [(''recommended_ids'', JArr [JStr ''p1'']), (''reason'', JStr ''ok''),
                           (''sources'', JArr [])])\<close>
    by code_simp
  have e: "\<forall>c \<in> set []. JSON_parse (trim c) = None" by simp
  from fenced_block_first_wins [OF b e p] b show ?thesis by simp
qed

theorem earlier_block_counterexample:
  \<open>fenced_blocks two_blocks = [''1'', ''{"recommended_ids":["p1"]}\<newline>'']
     \<and> JSON_parse (trim ''{"recommended_ids":["p1"]}\<newline>'')
         = Some (JObj [(''recommended_ids'', JArr [JStr ''p1''])])
     \<and> extractJSONFromText (JStr two_blocks) = JNum (Dec 1 0)\<close>
  by code_simp


text \<open>
  C3, as the code has it. For a text with no \<^verbatim>\<open>{\<close> and no \<^verbatim>\<open>}\<close> the result is the
  value of the first fenced block that parses, and \<^verbatim>\<open>null\<close> when there is none: a
  fenced number, string, array or literal is returned although the text has no brace.
  The function is total: a failed parse is a value, never an exception.
\<close>

theorem extract_without_braces:
  assumes "CHR ''{'' \<notin> set text" and "CHR ''}'' \<notin> set text"
  shows "extractJSONFromText (JStr text) =
           (case first_parse (fenced_blocks text) of None \<Rightarrow> JNull | Some v \<Rightarrow> v)"
proof (cases "first_parse (fenced_blocks text)")
  case None
  have "extractJSONFromText (JStr text) = JNull"
    by (rule extract_unfenced_no_braces [OF None assms(1)])
  with None show ?thesis by (simp del: extractJSONFromText.simps)
next
  case (Some v)
  have "extractJSONFromText (JStr text) = v"
    by (rule extract_fenced [OF Some])
  with Some show ?thesis by (simp del: extractJSONFromText.simps)
qed

theorem extract_without_braces_witness:
  "CHR ''{'' \<notin> set ''plain prose, no JSON'' \<and> CHR ''}'' \<notin> set ''plain prose, no JSON''
   \<and> extractJSONFromText (JStr ''plain prose, no JSON'') = JNull"
proof -
  have a: "CHR ''{'' \<notin> set ''plain prose, no JSON''" by simp
  have b: "CHR ''}'' \<notin> set ''plain prose, no JSON''" by simp
  have c: "first_parse (fenced_blocks ''plain prose, no JSON'') = None" by code_simp
  from extract_without_braces [OF a b] a b c show ?thesis
    by (simp del: extractJSONFromText.simps)
qed

theorem fenced_number_counterexample:
  "CHR ''{'' \<notin> set fenced_number \<and> CHR ''}'' \<notin> set fenced_number
   \<and> extractJSONFromText (JStr fenced_number) = JNum (Dec 1 0)"
  by code_simp

section \<open>Properties of the orchestrator\<close>

lemma accepted_truthy: "accepted v \<Longrightarrow> truthy v"
  by (simp add: accepted_def)

lemma try_candidates_skip:
  "\<forall>c \<in> set pre. \<not> truthy (extractJSONFromText c) \<Longrightarrow> truthy (extractJSONFromText hit)
   \<Longrightarrow> try_candidates p (pre @ hit # post) = extractJSONFromText hit"
  by (induction pre arbitrary: p) (simp_all del: extractJSONFromText.simps)

lemma try_candidates_truthy:
  "truthy (try_candidates p cands) \<Longrightarrow> \<not> truthy p
   \<Longrightarrow> \<exists>pre hit post. cands = pre @ hit # post
         \<and> (\<forall>c \<in> set pre. \<not> truthy (extractJSONFromText c))
         \<and> truthy (extractJSONFromText hit)
         \<and> try_candidates p cands = extractJSONFromText hit"
proof (induction cands arbitrary: p)
  case Nil
  then show ?case by simp
next
  case (Cons c cs)
  show ?case
  proof (cases "truthy (extractJSONFromText c)")
    case True
    then have "try_candidates p (c # cs) = extractJSONFromText c"
      by (simp del: extractJSONFromText.simps)
    with True show ?thesis by (intro exI [of _ "[]"] exI [of _ c] exI [of _ cs]) simp
  next
    case False
    then have step: "try_candidates p (c # cs) = try_candidates (extractJSONFromText c) cs"
      by (simp del: extractJSONFromText.simps)
    with Cons.prems(1) have "truthy (try_candidates (extractJSONFromText c) cs)" by simp
    from Cons.IH [OF this False] obtain pre hit post where
      split: "cs = pre @ hit # post"
      and falsy: "\<forall>x \<in> set pre. \<not> truthy (extractJSONFromText x)"
      and tr: "truthy (extractJSONFromText hit)"
      and res: "try_candidates (extractJSONFromText c) cs = extractJSONFromText hit"
      by blast
    have "c # cs = (c # pre) @ hit # post" using split by simp
    moreover have "\<forall>x \<in> set (c # pre). \<not> truthy (extractJSONFromText x)"
      using falsy False by simp
    moreover have "try_candidates p (c # cs) = extractJSONFromText hit"
      using step res by simp
    ultimately show ?thesis using tr by blast
  qed
qed

text \<open>
  What the loop computes: it stops at the first candidate whose extracted value is
  truthy, and the acceptance test is made once, after the loop, on that value.
\<close>

lemma first_truthy_candidate_decides:
  "accepted (try_candidates JNull cands) \<longleftrightarrow>
     (\<exists>pre hit post. cands = pre @ hit # post
        \<and> (\<forall>c \<in> set pre. \<not> truthy (extractJSONFromText c))
        \<and> accepted (extractJSONFromText hit))"
proof
  assume a: "accepted (try_candidates JNull cands)"
  then have "truthy (try_candidates JNull cands)" by (rule accepted_truthy)
  from try_candidates_truthy [OF this] obtain pre hit post where
    "cands = pre @ hit # post" "\<forall>c \<in> set pre. \<not> truthy (extractJSONFromText c)"
    "try_candidates JNull cands = extractJSONFromText hit"
    by auto
  with a show "\<exists>pre hit post. cands = pre @ hit # post
        \<and> (\<forall>c \<in> set pre. \<not> truthy (extractJSONFromText c))
        \<and> accepted (extractJSONFromText hit)"
    by auto
next
  assume "\<exists>pre hit post. cands = pre @ hit # post
        \<and> (\<forall>c \<in> set pre. \<not> truthy (extractJSONFromText c))
        \<and> accepted (extractJSONFromText hit)"
  then obtain pre hit post where
    s: "cands = pre @ hit # post" and f: "\<forall>c \<in> set pre. \<not> truthy (extractJSONFromText c)"
    and acc: "accepted (extractJSONFromText hit)"
    by blast
  from try_candidates_skip [OF f accepted_truthy [OF acc]] s acc
  show "accepted (try_candidates JNull cands)" by simp
qed

text \<open>
  C1. The orchestrator is to try the candidates in order until one yields an accepted
  value, a candidate whose parsed value is not accepted not standing in the way of a
  later one; the fallback is for a reply in which no candidate does, as its comment
  (\<^verbatim>\<open>Gemini didn't produce parsable JSON\<close>), its warning and its reason say. The code
  misses this: the loop breaks on the first truthy value, accepted or not. At
  \<open>shadowed_reply\<close> the first candidate gives \<^verbatim>\<open>{"x":1}\<close>, the second candidate, whose
  extraction is an accepted recommendation of \<open>p1\<close>, is never tried, and the endpoint
  answers the fallback ids \<open>p1\<close>, \<open>p2\<close>, \<open>p3\<close> with the reason that the model returned
  nothing machine-readable, listing the untried candidates among those tried.
\<close>

theorem shadowed_candidate_falls_back:
  \<open>collect_candidates shadowed_reply
       = Inr [JStr (fence @ ''{"x":1}'' @ fence),
              JStr (fence @ ''{"recommended_ids":["p1"]}'' @ fence),
              JStr (JSON_stringify shadowed_reply)]
     \<and> extractJSONFromText (JStr (fence @ ''{"recommended_ids":["p1"]}'' @ fence))
         = JObj [(''recommended_ids'', JArr [JStr ''p1''])]
     \<and> accepted (JObj [(''recommended_ids'', JArr [JStr ''p1''])])
     \<and> try_candidates JNull
          [JStr (fence @ ''{"x":1}'' @ fence),
           JStr (fence @ ''{"recommended_ids":["p1"]}'' @ fence),
           JStr (JSON_stringify shadowed_reply)]
         = JObj [(''x'', JNum (Dec 1 0))]
     \<and> recommend both_keys shadowed_network catalog_request
         = Response 200
             (JObj [(''recommended_ids'', JArr [JStr ''p1'', JStr ''p2'', JStr ''p3'']),
                    (''reason'',
                     JStr ''Fallback heuristic (Gemini did not return machine-readable JSON).''),
                    (''sources'',
                     JArr [JObj [(''title'', JStr ''search-error''),
                                 (''snippet'', JStr ''SerpApi fetch error: Error: timeout'')]]),
                    (''debug'',
                     JObj [(''gemini_candidates_tried'',
                            JArr [JStr (fence @ ''{"x":1}'' @ fence),
                                  JStr (fence @ ''{"recommended_ids":["p1"]}'' @ fence),
                                  JStr (JSON_stringify shadowed_reply)])])])\<close>
  by code_simp

section \<open>Properties of the fallback heuristic\<close>

text \<open>
  The sort of the model is a stable sort in descending order of the score: the result
  is descending, and the elements of one score keep their order.
\<close>

lemma length_insert_by: "length (insert_by cmp x xs) = Suc (length xs)"
  by (induction xs) auto

lemma length_sort_by: "length (sort_by cmp xs) = length xs"
  by (induction xs) (auto simp: length_insert_by)

lemma set_insert_by: "set (insert_by cmp x xs) = insert x (set xs)"
  by (induction xs) auto

lemma set_sort_by: "set (sort_by cmp xs) = set xs"
  by (induction xs) (auto simp: set_insert_by)

lemma price_filter_subset: "set (price_filter lower products) \<subseteq> set products"
  by (auto simp: price_filter_def split: option.splits)


lemma fallback_ids_subset: "set (fallback_ids query products) \<subseteq> id' ` set products"
proof -
  have "set (take 3 (sort_by cmp (price_filter lower products))) \<subseteq> set products"
    for cmp :: "product \<Rightarrow> product \<Rightarrow> int" and lower
    using set_take_subset [of 3 "sort_by cmp (price_filter lower products)"]
      price_filter_subset [of lower products]
    by (auto simp: set_sort_by)
  then show ?thesis by (auto simp: fallback_ids_def Let_def)
qed


lemma insert_by_descending:
  fixes f :: "'a \<Rightarrow> int"
  assumes "sorted_wrt (\<lambda>a b. f b \<le> f a) xs"
  shows "sorted_wrt (\<lambda>a b. f b \<le> f a) (insert_by (\<lambda>a b. f b - f a) x xs)"
  using assms
proof (induction xs)
  case Nil
  show ?case by simp
next
  case (Cons y ys)
  show ?case
  proof (cases "f y \<le> f x")
    case True
    with Cons.prems show ?thesis by auto
  next
    case False
    with Cons show ?thesis by (auto simp: set_insert_by)
  qed
qed

lemma sort_by_descending:
  fixes f :: "'a \<Rightarrow> int"
  shows "sorted_wrt (\<lambda>a b. f b \<le> f a) (sort_by (\<lambda>a b. f b - f a) xs)"
  by (induction xs) (auto intro: insert_by_descending)

lemma filter_insert_by_other:
  "\<not> P x \<Longrightarrow> filter P (insert_by cmp x xs) = filter P xs"
  by (induction xs) auto

lemma filter_insert_by_same:
  fixes f :: "'a \<Rightarrow> int"
  assumes "sorted_wrt (\<lambda>a b. f b \<le> f a) xs"
  shows "filter (\<lambda>y. f y = f x) (insert_by (\<lambda>a b. f b - f a) x xs)
           = x # filter (\<lambda>y. f y = f x) xs"
  using assms
proof (induction xs)
  case Nil
  show ?case by simp
next
  case (Cons y ys)
  show ?case
  proof (cases "f y \<le> f x")
    case True
    then show ?thesis by simp
  next
    case False
    with Cons show ?thesis by auto
  qed
qed

lemma sort_by_stable:
  fixes f :: "'a \<Rightarrow> int"
  shows "filter (\<lambda>y. f y = k) (sort_by (\<lambda>a b. f b - f a) xs) = filter (\<lambda>y. f y = k) xs"
proof (induction xs)
  case Nil
  show ?case by simp
next
  case (Cons x xs)
  show ?case
  proof (cases "f x = k")
    case False
    then show ?thesis using Cons.IH by (simp add: filter_insert_by_other)
  next
    case True
    have "filter (\<lambda>y. f y = f x) (insert_by (\<lambda>a b. f b - f a) x (sort_by (\<lambda>a b. f b - f a) xs))
            = x # filter (\<lambda>y. f y = f x) (sort_by (\<lambda>a b. f b - f a) xs)"
      by (rule filter_insert_by_same [OF sort_by_descending])
    with True Cons.IH show ?thesis by simp
  qed
qed

text \<open>
  C4, as the code has it. For the query \<^verbatim>\<open>I want a phone under $500\<close> and the catalog
  of the client the price ceiling is 500, the products at 549 and 699 are filtered out,
  the survivors \<open>p1\<close>, \<open>p3\<close>, \<open>p5\<close>, \<open>p6\<close> score 3, 2, 2, 2, and the first three in
  descending stable order are returned: \<open>p1\<close>, \<open>p3\<close>, \<open>p5\<close>. The heuristic does not
  filter by category: two phones remain, and the third id is the tablet \<open>p5\<close>.
\<close>

theorem phone_under_500:
  "price_match (toLowerCase phone_query) = Some ''500''
   \<and> map id' (price_filter (toLowerCase phone_query) PRODUCTS) = [''p1'', ''p3'', ''p5'', ''p6'']
   \<and> tokens_of (toLowerCase phone_query) = [''i'', ''want'', ''a'', ''phone'', ''under'', ''$500'']
   \<and> map (score (tokens_of (toLowerCase phone_query)))
           (price_filter (toLowerCase phone_query) PRODUCTS) = [3, 2, 2, 2]
   \<and> fallback_ids phone_query PRODUCTS = [''p1'', ''p3'', ''p5'']"
  by code_simp

theorem phone_under_500_counterexample:
  "fallback_ids phone_query PRODUCTS = [''p1'', ''p3'', ''p5'']
   \<and> map category (filter (\<lambda>p. id' p = ''p5'') PRODUCTS) = [''tablet'']
   \<and> map id' (filter (\<lambda>p. category p = ''phone'')
                  (price_filter (toLowerCase phone_query) PRODUCTS)) = [''p1'', ''p3'']"
  by code_simp

section \<open>Properties of the endpoint\<close>

lemma webSearch_unset:
  "unset (SERPAPI_KEY cfg)
   \<Longrightarrow> webSearch cfg query f = JObj [(''error'', JStr ''SERPAPI_KEY not configured'')]"
  by (simp add: webSearch_def)

lemma build_snippets_error:
  "msg \<noteq> [] \<Longrightarrow> build_snippets (JObj [(''error'', JStr msg)]) = Inr [search_error_snippet msg]"
  by (simp add: build_snippets_def search_error_snippet_def)

lemma webSearch_failure:
  assumes "search_failure f"
  shows "\<exists>msg. msg \<noteq> [] \<and> webSearch cfg query f = JObj [(''error'', JStr msg)]"
proof (cases "unset (SERPAPI_KEY cfg)")
  case True
  then show ?thesis by (auto simp: webSearch_unset)
next
  case False
  show ?thesis
  proof (cases f)
    case TimedOut
    with False show ?thesis by (simp add: webSearch_def)
  next
    case (Settled res)
    show ?thesis
    proof (cases res)
      case (Inl err)
      with False Settled show ?thesis by (simp add: webSearch_def)
    next
      case (Inr r)
      with assms Settled have "\<not> ok r" by simp
      with False Settled Inr show ?thesis
        by (cases "body_text r") (simp_all add: webSearch_def)
    qed
  qed
qed

lemma recommend_try_query:
  "query \<noteq> [] \<Longrightarrow>
   recommend_try cfg net \<lparr>body_query = Some query, body_products = products\<rparr>
     = (case build_snippets (webSearch cfg query (search_fetch net query)) of
          Inl e \<Rightarrow> Inl e
        | Inr snippets \<Rightarrow> after_search cfg net query products snippets)"
  by (simp add: recommend_try_def split: sum.splits)

lemma respond_status: "\<exists>b. respond query products snippets cands = Response 200 b"
  by (simp add: respond_def Let_def)

lemma after_search_status:
  "after_search cfg net query products snippets = Inr r \<Longrightarrow> \<exists>b. r = Response 200 b"
  using respond_status
  by (auto simp: after_search_def Let_def split: sum.splits)

lemma recommend_query:
  assumes "query \<noteq> []"
    and "build_snippets (webSearch cfg query (search_fetch net query)) = Inr snippets"
  shows "recommend cfg net \<lparr>body_query = Some query, body_products = products\<rparr>
           = (case after_search cfg net query products snippets of
                Inl err \<Rightarrow> error_response 500 (error_to_string err)
              | Inr r \<Rightarrow> r)"
  using assms
  by (simp add: recommend_def recommend_try_query error_response_def split: sum.splits)


text \<open>
  C5, as the code has it. Without the search key \<^verbatim>\<open>webSearch\<close> returns the tagged
  error \<^verbatim>\<open>SERPAPI_KEY not configured\<close> without fetching, and the orchestrator turns it
  into one synthetic \<^verbatim>\<open>search-error\<close> snippet: the request goes on, non-fatally, with a
  list of one snippet, not an empty one, in the prompt and in the sources of a fallback
  response.
\<close>

theorem missing_search_key_gives_one_snippet:
  assumes "unset (SERPAPI_KEY cfg)"
  shows "webSearch cfg query f = JObj [(''error'', JStr ''SERPAPI_KEY not configured'')]
     \<and> build_snippets (webSearch cfg query f)
         = Inr [search_error_snippet ''SERPAPI_KEY not configured'']
     \<and> (query \<noteq> [] \<longrightarrow>
          recommend_try cfg net \<lparr>body_query = Some query, body_products = products\<rparr>
            = after_search cfg net query products
                [search_error_snippet ''SERPAPI_KEY not configured''])"
proof -
  have w: "\<And>g. webSearch cfg query g = JObj [(''error'', JStr ''SERPAPI_KEY not configured'')]"
    by (rule webSearch_unset [OF assms])
  have b: "\<And>g. build_snippets (webSearch cfg query g)
             = Inr [search_error_snippet ''SERPAPI_KEY not configured'']"
    unfolding w by (rule build_snippets_error) simp
  show ?thesis using w b by (simp add: recommend_try_query)
qed

theorem missing_search_key_gives_one_snippet_witness:
  "build_snippets (webSearch no_search_key ''phone'' TimedOut)
     = Inr [search_error_snippet ''SERPAPI_KEY not configured'']
   \<and> recommend_try no_search_key quiet_network phone_request
     = after_search no_search_key quiet_network ''phone'' []
         [search_error_snippet ''SERPAPI_KEY not configured'']"
proof -
  have u: "unset (SERPAPI_KEY no_search_key)" by (simp add: no_search_key_def)
  have q: "''phone'' \<noteq> []" by simp
  note t = missing_search_key_gives_one_snippet
             [OF u, of "''phone''" TimedOut quiet_network "[]"]
  from t have a: "build_snippets (webSearch no_search_key ''phone'' TimedOut)
                    = Inr [search_error_snippet ''SERPAPI_KEY not configured'']"
    by blast
  from t q have b: "recommend_try no_search_key quiet_network
                      \<lparr>body_query = Some ''phone'', body_products = []\<rparr>
                    = after_search no_search_key quiet_network ''phone'' []
                        [search_error_snippet ''SERPAPI_KEY not configured'']"
    by blast
  show ?thesis unfolding phone_request_def using a b by blast
qed

theorem missing_search_key_counterexample:
  "build_snippets (webSearch no_search_key ''phone'' TimedOut)
     = Inr [JObj [(''title'', JStr ''search-error''),
                  (''snippet'', JStr ''SERPAPI_KEY not configured'')]]
   \<and> recommend no_search_key quiet_network phone_request
     = Response 200
         (JObj [(''recommended_ids'', JArr []),
                (''reason'',
                 JStr ''Fallback heuristic (Gemini did not return machine-readable JSON).''),
                (''sources'',
                 JArr [JObj [(''title'', JStr ''search-error''),
                             (''snippet'', JStr ''SERPAPI_KEY not configured'')]]),
                (''debug'', JObj [(''gemini_candidates_tried'', JArr [JStr ''{}''])])])"
  by code_simp


text \<open>
  C6. When the search fetch times out, is rejected, or brings a status that is not 2xx,
  \<^verbatim>\<open>webSearch\<close> returns a tagged error with a message that is not empty, the snippets
  are the one synthetic \<^verbatim>\<open>search-error\<close> snippet with that message, and the answer of
  the endpoint is the answer of the rest of the handler run with that snippet: a 500
  only when the rest throws, and otherwise a 200 response.
\<close>

theorem search_failure_is_not_fatal:
  assumes "search_failure f"
  shows "\<exists>msg. msg \<noteq> []
     \<and> webSearch cfg query f = JObj [(''error'', JStr msg)]
     \<and> build_snippets (webSearch cfg query f) = Inr [search_error_snippet msg]
     \<and> (query \<noteq> [] \<and> search_fetch net query = f \<longrightarrow>
          (case after_search cfg net query products [search_error_snippet msg] of
             Inl err \<Rightarrow>
               recommend cfg net \<lparr>body_query = Some query, body_products = products\<rparr>
                 = error_response 500 (error_to_string err)
           | Inr r \<Rightarrow>
               recommend cfg net \<lparr>body_query = Some query, body_products = products\<rparr> = r
               \<and> (\<exists>b. r = Response 200 b)))"
proof -
  from webSearch_failure [OF assms] obtain msg where
    m: "msg \<noteq> []" and w: "webSearch cfg query f = JObj [(''error'', JStr msg)]"
    by blast
  have b: "build_snippets (webSearch cfg query f) = Inr [search_error_snippet msg]"
    unfolding w by (rule build_snippets_error [OF m])
  have "(case after_search cfg net query products [search_error_snippet msg] of
             Inl err \<Rightarrow>
               recommend cfg net \<lparr>body_query = Some query, body_products = products\<rparr>
                 = error_response 500 (error_to_string err)
           | Inr r \<Rightarrow>
               recommend cfg net \<lparr>body_query = Some query, body_products = products\<rparr> = r
               \<and> (\<exists>b. r = Response 200 b))"
    if "query \<noteq> []" and "search_fetch net query = f"
    using recommend_query [of query cfg net "[search_error_snippet msg]" products] that b
      after_search_status [of cfg net query products "[search_error_snippet msg]"]
    by (auto split: sum.splits)
  with m w b show ?thesis by blast
qed

theorem search_failure_is_not_fatal_witness:
  "webSearch both_keys ''phone'' TimedOut
     = JObj [(''error'', JStr ''SerpApi fetch error: Error: timeout'')]
   \<and> recommend both_keys quiet_network phone_request
     = Response 200
         (JObj [(''recommended_ids'', JArr []),
                (''reason'',
                 JStr ''Fallback heuristic (Gemini did not return machine-readable JSON).''),
                (''sources'',
                 JArr [JObj [(''title'', JStr ''search-error''),
                             (''snippet'', JStr ''SerpApi fetch error: Error: timeout'')]]),
                (''debug'', JObj [(''gemini_candidates_tried'', JArr [JStr ''{}''])])])"
proof -
  have f: "search_failure TimedOut" by simp
  have q: "''phone'' \<noteq> [] \<and> search_fetch quiet_network ''phone'' = TimedOut"
    by (simp add: quiet_network_def)
  have w: "webSearch both_keys ''phone'' TimedOut
             = JObj [(''error'', JStr ''SerpApi fetch error: Error: timeout'')]"
    by code_simp
  have ev: "after_search both_keys quiet_network ''phone'' []
              [search_error_snippet ''SerpApi fetch error: Error: timeout'']
            = Inr (Response 200
         (JObj [(''recommended_ids'', JArr []),
                (''reason'',
                 JStr ''Fallback heuristic (Gemini did not return machine-readable JSON).''),
                (''sources'',
                 JArr [JObj [(''title'', JStr ''search-error''),
                             (''snippet'', JStr ''SerpApi fetch error: Error: timeout'')]]),
                (''debug'', JObj [(''gemini_candidates_tried'', JArr [JStr ''{}''])])]))"
    by code_simp
  from search_failure_is_not_fatal [OF f, of both_keys "''phone''" quiet_network "[]"]
  obtain msg where
    m: "webSearch both_keys ''phone'' TimedOut = JObj [(''error'', JStr msg)]"
    and c: "''phone'' \<noteq> [] \<and> search_fetch quiet_network ''phone'' = TimedOut \<longrightarrow>
          (case after_search both_keys quiet_network ''phone'' [] [search_error_snippet msg] of
             Inl err \<Rightarrow>
               recommend both_keys quiet_network
                 \<lparr>body_query = Some ''phone'', body_products = []\<rparr>
                 = error_response 500 (error_to_string err)
           | Inr r \<Rightarrow>
               recommend both_keys quiet_network
                 \<lparr>body_query = Some ''phone'', body_products = []\<rparr> = r
               \<and> (\<exists>b. r = Response 200 b))"
    by blast
  from m w have "msg = ''SerpApi fetch error: Error: timeout''" by simp
  with c q ev w show ?thesis by (simp add: phone_request_def)
qed


lemma askGemini_unset:
  "unset (GEMINI_KEY cfg)
   \<Longrightarrow> askGemini cfg prompt f = Inl (Error ''GEMINI_API_KEY not set in server environment.'')"
  by (simp add: askGemini_def)

lemma askGemini_timeout:
  "\<not> unset (GEMINI_KEY cfg)
   \<Longrightarrow> askGemini cfg prompt TimedOut = Inl (Error ''Gemini call failed: timeout'')"
  by (simp add: askGemini_def Error_def)

lemma askGemini_hard_failure:
  assumes "unset (GEMINI_KEY cfg) \<or> (\<forall>prompt. model_fetch net prompt = TimedOut)"
  shows "\<exists>err. askGemini cfg prompt (model_fetch net prompt) = Inl err"
  using assms askGemini_unset [of cfg prompt] askGemini_timeout [of cfg prompt]
  by (cases "unset (GEMINI_KEY cfg)") auto

lemma after_search_hard_failure:
  assumes "unset (GEMINI_KEY cfg) \<or> (\<forall>prompt. model_fetch net prompt = TimedOut)"
  shows "\<exists>err. after_search cfg net query products snippets = Inl err"
proof -
  from askGemini_hard_failure [OF assms] obtain err where
    "askGemini cfg (build_prompt query products snippets)
       (model_fetch net (build_prompt query products snippets)) = Inl err"
    by blast
  then show ?thesis by (simp add: after_search_def Let_def)
qed

lemma recommend_try_hard_failure:
  assumes "unset (GEMINI_KEY cfg) \<or> (\<forall>prompt. model_fetch net prompt = TimedOut)"
    and "body_query req = Some query" and "query \<noteq> []"
  shows "\<exists>err. recommend_try cfg net req = Inl err"
proof (cases "build_snippets (webSearch cfg query (search_fetch net query))")
  case (Inl e)
  with assms(2,3) show ?thesis by (simp add: recommend_try_def)
next
  case (Inr snippets)
  from after_search_hard_failure [OF assms(1)] obtain err where
    "after_search cfg net query (body_products req) snippets = Inl err" by blast
  with Inr assms(2,3) show ?thesis by (simp add: recommend_try_def)
qed


text \<open>
  C7. When the model key is not set, or the model fetch times out, a request with a
  query is answered with status 500 and a body \<^verbatim>\<open>{error: string}\<close>; every request is
  answered with such a body and status 400 (no query) or 500, never with a
  recommendation.
\<close>

theorem model_hard_failure_fails_request:
  assumes "unset (GEMINI_KEY cfg) \<or> (\<forall>prompt. model_fetch net prompt = TimedOut)"
  shows "(\<forall>query. body_query req = Some query \<and> query \<noteq> [] \<longrightarrow>
            (\<exists>msg. recommend cfg net req = error_response 500 msg))
     \<and> (\<exists>st msg. recommend cfg net req = error_response st msg \<and> (st = 400 \<or> st = 500))"
proof -
  have a: "\<exists>msg. recommend cfg net req = error_response 500 msg"
    if "body_query req = Some query" and "query \<noteq> []" for query
  proof -
    from recommend_try_hard_failure [OF assms that] obtain err where
      "recommend_try cfg net req = Inl err" by blast
    then show ?thesis by (simp add: recommend_def error_response_def)
  qed
  have b: "recommend cfg net req = error_response 400 ''missing query''"
    if "body_query req = None \<or> body_query req = Some []"
    using that by (auto simp: recommend_def recommend_try_def error_response_def)
  have "\<exists>st msg. recommend cfg net req = error_response st msg \<and> (st = 400 \<or> st = 500)"
  proof (cases "body_query req")
    case None
    with b show ?thesis by blast
  next
    case (Some query)
    show ?thesis
    proof (cases "query = []")
      case True
      with Some b show ?thesis by blast
    next
      case False
      with a [OF Some] show ?thesis by blast
    qed
  qed
  with a show ?thesis by blast
qed

theorem model_hard_failure_fails_request_witness:
  "recommend no_model_key quiet_network phone_request
     = error_response 500 ''Error: GEMINI_API_KEY not set in server environment.''"
proof -
  have u: "unset (GEMINI_KEY no_model_key)
           \<or> (\<forall>prompt. model_fetch quiet_network prompt = TimedOut)"
    by (simp add: no_model_key_def)
  have q: "body_query phone_request = Some ''phone'' \<and> ''phone'' \<noteq> []"
    by (simp add: phone_request_def)
  from model_hard_failure_fails_request [OF u, of phone_request] q
  obtain msg where m: "recommend no_model_key quiet_network phone_request = error_response 500 msg"
    by blast
  have "recommend no_model_key quiet_network phone_request
          = error_response 500 ''Error: GEMINI_API_KEY not set in server environment.''"
    by code_simp
  with m show ?thesis by simp
qed









text \<open>
  C10, as the code has it. The endpoint answers 400 \<^verbatim>\<open>missing query\<close> exactly when the
  query is missing or the empty string, whatever the network does. A query that is
  blank after trimming is stopped by the form handler of the client, which sends no
  request; the endpoint itself takes a query of white space on to the search and the
  model (\<open>blank_request\<close>).
\<close>

theorem missing_query_is_rejected:
  "(recommend cfg net req = error_response 400 ''missing query''
      \<longleftrightarrow> body_query req = None \<or> body_query req = Some [])
   \<and> (trim query = [] \<longrightarrow>
        handleRecommend query = SetError ''Enter something like: I want a phone under $500'')
   \<and> (trim query \<noteq> [] \<longrightarrow>
        handleRecommend query = Post \<lparr>body_query = Some query, body_products = PRODUCTS\<rparr>)"
proof -
  have l: "recommend cfg net req = error_response 400 ''missing query''"
    if "body_query req = None \<or> body_query req = Some []"
    using that by (auto simp: recommend_def recommend_try_def error_response_def)
  have r: "body_query req = None \<or> body_query req = Some []"
    if a: "recommend cfg net req = error_response 400 ''missing query''"
  proof (rule ccontr)
    assume "\<not> (body_query req = None \<or> body_query req = Some [])"
    then obtain q where q: "body_query req = Some q" "q \<noteq> []" by (cases "body_query req") auto
    show False
    proof (cases "recommend_try cfg net req")
      case (Inl err)
      with a show False by (simp add: recommend_def error_response_def)
    next
      case (Inr resp)
      with q obtain sn where "after_search cfg net q (body_products req) sn = Inr resp"
        by (auto simp: recommend_try_def split: sum.splits)
      from after_search_status [OF this] obtain b where "resp = Response 200 b" by blast
      with Inr a show False by (simp add: recommend_def error_response_def)
    qed
  qed
  from l r show ?thesis by (auto simp: handleRecommend_def)
qed

theorem missing_query_is_rejected_witness:
  "recommend both_keys quiet_network \<lparr>body_query = None, body_products = []\<rparr>
     = error_response 400 ''missing query''
   \<and> handleRecommend ''   '' = SetError ''Enter something like: I want a phone under $500''
   \<and> handleRecommend ''phone''
     = Post \<lparr>body_query = Some ''phone'', body_products = PRODUCTS\<rparr>"
proof -
  have a: "body_query \<lparr>body_query = None, body_products = []\<rparr> = None
           \<or> body_query \<lparr>body_query = None, body_products = []\<rparr> = Some []"
    by simp
  have b: "trim ''   '' = []" by code_simp
  have c: "trim ''phone'' \<noteq> []" by code_simp
  from missing_query_is_rejected
         [of both_keys quiet_network "\<lparr>body_query = None, body_products = []\<rparr>" "''   ''"]
       missing_query_is_rejected
         [of both_keys quiet_network "\<lparr>body_query = None, body_products = []\<rparr>" "''phone''"]
       a b c
  show ?thesis by blast
qed

theorem blank_query_counterexample:
  "trim ''   '' = []
   \<and> recommend both_keys quiet_network blank_request
     = Response 200
         (JObj [(''recommended_ids'', JArr []),
                (''reason'',
                 JStr ''Fallback heuristic (Gemini did not return machine-readable JSON).''),
                (''sources'',
                 JArr [JObj [(''title'', JStr ''search-error''),
                             (''snippet'', JStr ''SerpApi fetch error: Error: timeout'')]]),
                (''debug'', JObj [(''gemini_candidates_tried'', JArr [JStr ''{}''])])])"
  by code_simp

section \<open>A reply of the model provider with an error status\<close>

lemma fenced_scan_no_backtick: "CHR 0x60 \<notin> set s \<Longrightarrow> fenced_scan s = None"
  by (subst fenced_scan.simps) (simp add: fenced_exec_def find_sub_absent)

lemma lastIndexOf_snoc: "lastIndexOf (xs @ [c]) c = Some (length xs)"
  by (induction xs) auto

lemma stringify_object_shape:
  "\<exists>mid. JSON_stringify (JObj kvs) = CHR ''{'' # mid @ [CHR ''}'']"
  by simp

lemma extract_whole_object:
  assumes "CHR 0x60 \<notin> set (JSON_stringify (JObj kvs))"
    and "JSON_parse (JSON_stringify (JObj kvs)) = Some v"
  shows "extractJSONFromText (JStr (JSON_stringify (JObj kvs))) = v"
proof -
  from stringify_object_shape obtain mid where
    t: "JSON_stringify (JObj kvs) = CHR ''{'' # mid @ [CHR ''}'']" by blast
  define src where "src = CHR ''{'' # mid @ [CHR ''}'']"
  have ne: "src \<noteq> []" by (simp add: src_def)
  have fs: "fenced_scan src = None"
    using assms(1) fenced_scan_no_backtick unfolding t src_def by blast
  have fi: "indexOf src (CHR ''{'') = Some 0" by (simp add: src_def)
  have "lastIndexOf ((CHR ''{'' # mid) @ [CHR ''}'']) (CHR ''}'') = Some (length (CHR ''{'' # mid))"
    by (rule lastIndexOf_snoc)
  then have la: "lastIndexOf src (CHR ''}'') = Some (Suc (length mid))"
    by (simp add: src_def)
  have sl: "slice src 0 (Suc (length mid) + 1) = src"
    by (simp add: slice_def src_def)
  have pa: "JSON_parse src = Some v" using assms(2) unfolding t src_def .
  have "extractJSONFromText (JStr src) = v"
    using ne fs fi la sl pa by simp
  then show ?thesis unfolding t src_def .
qed

lemma not_array_case:
  "\<not> isArray x \<Longrightarrow> (case x of Some (JArr cs) \<Rightarrow> f cs | _ \<Rightarrow> d) = d"
  by (cases x rule: isArray.cases) auto

lemma collect_candidates_plain:
  assumes "\<not> isArray (get_prop gem ''candidates'')" and "\<not> isArray (get_prop gem ''output'')"
  shows "collect_candidates gem = Inr [JStr (JSON_stringify gem)]"
  unfolding collect_candidates_def
  by (simp only: not_array_case [OF assms(1)] not_array_case [OF assms(2)] sum.case append_Nil)

lemma askGemini_ignores_status:
  "\<not> unset (GEMINI_KEY cfg) \<Longrightarrow> body_json r = Inr gem
   \<Longrightarrow> askGemini cfg prompt (Settled (Inr r)) = Inr gem"
  by (simp add: askGemini_def)


text \<open>
  C8, as the code has it. \<^verbatim>\<open>askGemini\<close> returns the JSON body of the reply whatever
  its status. When the body is an object without a \<^verbatim>\<open>candidates\<close> array, an \<^verbatim>\<open>output\<close>
  array or a \<^verbatim>\<open>recommended_ids\<close> array, and its serialisation holds no backtick and
  parses back to the body, then the serialisation is the only candidate, the extractor
  returns the body, the body is not accepted, and the endpoint answers 200 with the
  fallback result. That the serialisation parses back is a hypothesis here; it is
  evaluated for the error body \<open>provider_error_body\<close>. Without the conditions on the body the
  request can fail: a \<^verbatim>\<open>null\<close> among the candidates makes the handler throw
  (\<open>null_candidate_network\<close>).
\<close>

theorem provider_error_body_falls_back:
  assumes "\<not> unset (GEMINI_KEY cfg)"
    and "\<forall>prompt. model_fetch net prompt = Settled (Inr r)"
    and "body_json r = Inr (JObj kvs)"
    and "\<not> isArray (get_prop (JObj kvs) ''candidates'')"
    and "\<not> isArray (get_prop (JObj kvs) ''output'')"
    and "\<not> isArray (get_prop (JObj kvs) ''recommended_ids'')"
    and "CHR 0x60 \<notin> set (JSON_stringify (JObj kvs))"
    and "JSON_parse (JSON_stringify (JObj kvs)) = Some (JObj kvs)"
    and "query \<noteq> []"
    and "build_snippets (webSearch cfg query (search_fetch net query)) = Inr snippets"
  shows "askGemini cfg prompt (model_fetch net prompt) = Inr (JObj kvs)
     \<and> extractJSONFromText (JStr (JSON_stringify (JObj kvs))) = JObj kvs
     \<and> \<not> accepted (JObj kvs)
     \<and> recommend cfg net \<lparr>body_query = Some query, body_products = products\<rparr>
         = Response 200
             (fallback_response query products snippets [JStr (JSON_stringify (JObj kvs))])"
proof -
  have ask: "askGemini cfg p (model_fetch net p) = Inr (JObj kvs)" for p
    using assms(2) askGemini_ignores_status [OF assms(1) assms(3)] by simp
  have col: "collect_candidates (JObj kvs) = Inr [JStr (JSON_stringify (JObj kvs))]"
    by (rule collect_candidates_plain [OF assms(4) assms(5)])
  have ext: "extractJSONFromText (JStr (JSON_stringify (JObj kvs))) = JObj kvs"
    by (rule extract_whole_object [OF assms(7) assms(8)])
  have nacc: "\<not> accepted (JObj kvs)"
    using assms(6) by (simp add: accepted_def)
  have tr: "try_candidates JNull [JStr (JSON_stringify (JObj kvs))] = JObj kvs"
    using ext by (simp del: extractJSONFromText.simps)
  have resp: "respond query products snippets [JStr (JSON_stringify (JObj kvs))]
                = Response 200
                    (fallback_response query products snippets [JStr (JSON_stringify (JObj kvs))])"
    using tr nacc by (simp add: respond_def Let_def del: try_candidates.simps)
  have aft: "after_search cfg net query products snippets
               = Inr (Response 200
                    (fallback_response query products snippets [JStr (JSON_stringify (JObj kvs))]))"
    using ask col resp by (simp add: after_search_def Let_def)
  have "recommend cfg net \<lparr>body_query = Some query, body_products = products\<rparr>
         = Response 200
             (fallback_response query products snippets [JStr (JSON_stringify (JObj kvs))])"
    using aft assms(9) assms(10) by (simp add: recommend_def recommend_try_query)
  with ask ext nacc show ?thesis by blast
qed

theorem provider_error_body_falls_back_witness:
  \<open>recommend both_keys error_reply_network phone_request
     = Response 200
         (JObj [(''recommended_ids'', JArr []),
                (''reason'',
                 JStr ''Fallback heuristic (Gemini did not return machine-readable JSON).''),
                (''sources'',
                 JArr [JObj [(''title'', JStr ''search-error''),
                             (''snippet'', JStr ''SerpApi fetch error: Error: timeout'')]]),
                (''debug'',
                 JObj [(''gemini_candidates_tried'',
                        JArr [JStr ''{"error":{"code":400,"message":"API key not valid","status":"INVALID_ARGUMENT"}}''])])])\<close>
proof -
  define kvs where
    "kvs = [(''error'',
             JObj [(''code'', JNum (Dec 400 0)), (''message'', JStr ''API key not valid''),
                   (''status'', JStr ''INVALID_ARGUMENT'')])]"
  define r where
    "r = \<lparr>status = 400, body_text = Inr (JSON_stringify provider_error_body),
            body_json = Inr provider_error_body\<rparr>"
  have g: "provider_error_body = JObj kvs" by (simp add: provider_error_body_def kvs_def)
  have h1: "\<not> unset (GEMINI_KEY both_keys)" by (simp add: both_keys_def)
  have h2: "\<forall>prompt. model_fetch error_reply_network prompt = Settled (Inr r)"
    by (simp add: error_reply_network_def json_reply_def r_def)
  have h3: "body_json r = Inr (JObj kvs)" by (simp add: r_def g)
  have h4: "\<not> isArray (get_prop (JObj kvs) ''candidates'')" unfolding kvs_def by code_simp
  have h5: "\<not> isArray (get_prop (JObj kvs) ''output'')" unfolding kvs_def by code_simp
  have h6: "\<not> isArray (get_prop (JObj kvs) ''recommended_ids'')" unfolding kvs_def by code_simp
  have h7: "CHR 0x60 \<notin> set (JSON_stringify (JObj kvs))" unfolding kvs_def by code_simp
  have h8: "JSON_parse (JSON_stringify (JObj kvs)) = Some (JObj kvs)" unfolding kvs_def by code_simp
  have h9: "''phone'' \<noteq> []" by simp
  have h10: "build_snippets (webSearch both_keys ''phone'' (search_fetch error_reply_network ''phone''))
               = Inr [search_error_snippet ''SerpApi fetch error: Error: timeout'']"
    by code_simp
  have fb: \<open>fallback_response ''phone'' []
              [search_error_snippet ''SerpApi fetch error: Error: timeout'']
              [JStr (JSON_stringify (JObj kvs))]
         = JObj [(''recommended_ids'', JArr []),
                (''reason'',
                 JStr ''Fallback heuristic (Gemini did not return machine-readable JSON).''),
                (''sources'',
                 JArr [JObj [(''title'', JStr ''search-error''),
                             (''snippet'', JStr ''SerpApi fetch error: Error: timeout'')]]),
                (''debug'',
                 JObj [(''gemini_candidates_tried'',
                        JArr [JStr ''{"error":{"code":400,"message":"API key not valid","status":"INVALID_ARGUMENT"}}''])])]\<close>
    unfolding kvs_def by code_simp
  from provider_error_body_falls_back [OF h1 h2 h3 h4 h5 h6 h7 h8 h9 h10, of "[]" "[]"] fb
  show ?thesis by (simp add: phone_request_def)
qed

theorem null_candidate_counterexample:
  "recommend both_keys null_candidate_network phone_request
     = error_response 500
         (''TypeError: Cannot read properties of null (reading '' @ [CHR 0x27] @ ''content''
          @ [CHR 0x27] @ '')'')"
  by code_simp

end
